theory Spec2Isabelle
  imports Main "HOL-Library.Word"
begin

section \<open>The git command gateway of gitserver (package gitcli)\<close>

text \<open>
  A shallow embedding of the command builder, the streaming result reader, the bounded
  stderr capture, the corruption heuristic and the sampling instrumentation of
  \<^verbatim>\<open>package gitcli\<close>. Go strings and byte slices are \<open>string\<close> (a list of
  bytes); every error return of the source is a value of the type \<open>error\<close>.
\<close>

subsection \<open>Errors\<close>

text \<open>
  The error values the gateway builds or passes on. \<open>CommandFailedError\<close> keeps the
  field order of the Go struct: \<open>Stderr\<close>, \<open>ExitStatus\<close>, \<open>Inner\<close>, \<open>args\<close>.
  \<open>ErrRepoCorrupted\<close> is built by the source as
  \<^verbatim>\<open>common.ErrRepoCorrupted{Reason: rc.stderr.String()}\<close>: the reason is the only field
  it sets. \<open>Wrapped e msg\<close> is \<^verbatim>\<open>errors.Wrap(e, msg)\<close>; \<open>ContextCanceled\<close> and
  \<open>DeadlineExceeded\<close> are the two values of \<^verbatim>\<open>ctx.Err()\<close>; \<open>ExitError c\<close>
  is the \<^verbatim>\<open>*exec.ExitError\<close> of a process that exited with code \<open>c\<close>;
  \<open>OSError\<close> is any other error of the operating system or of a collaborator.
\<close>

datatype error =
    ErrBadSpec string
  | ErrUnknownArgumentType string
  | Wrapped error string
  | ContextCanceled
  | DeadlineExceeded
  | ExitError int
  | OSError string
  | EOF
  | ErrRepoCorrupted string
  | CommandFailedError string int error "string list"

text \<open>
  \<^verbatim>\<open>func (e *CommandFailedError) Unwrap() error { return e.Inner }\<close>, and the cause of
  an \<^verbatim>\<open>errors.Wrap\<close>. No other error value of the gateway carries a cause.
\<close>

fun Unwrap :: "error \<Rightarrow> error option" where
  "Unwrap (CommandFailedError stderr exitStatus inner args) = Some inner"
| "Unwrap (Wrapped e msg) = Some e"
| "Unwrap e = None"

subsection \<open>Argument model\<close>

text \<open>
  The four types that implement the interface \<open>Argument\<close>. The interface is a Go
  interface, so a value of it can also be \<^verbatim>\<open>nil\<close> or of a dynamic type the type
  switch of \<open>argsFromArguments\<close> does not list: \<open>OtherArgument t\<close> is such a value,
  \<open>t\<close> being what \<^verbatim>\<open>%T\<close> prints for it.
\<close>

datatype Argument =
    FlagArgument string
  | SpecSafeValueArgument string
  | ValueFlagArgument string string
  | ConfigArgument string string
  | OtherArgument string

fun hasPrefix :: "string \<Rightarrow> string \<Rightarrow> bool" where
  "hasPrefix [] s = True"
| "hasPrefix (p # ps) [] = False"
| "hasPrefix (p # ps) (c # cs) = (p = c \<and> hasPrefix ps cs)"

text \<open>
  Modelled from the spec: \<open>checkSpecArgSafety\<close> is called by \<open>argsFromArguments\<close>
  and lives in a file of the package that is not among the sources. The spec: a
  SpecSafeValue that starts with \<^verbatim>\<open>-\<close> is rejected, every other one is accepted.
\<close>

definition checkSpecArgSafety :: "string \<Rightarrow> error option" where
  "checkSpecArgSafety spec = (if hasPrefix ''-'' spec then Some (ErrBadSpec spec) else None)"

subsection \<open>Command builder\<close>

text \<open>
  The \<^verbatim>\<open>for _, arg := range args\<close> loop of \<open>argsFromArguments\<close>, with its two
  accumulators \<open>configFlags\<close> and \<open>flags\<close>. The safety check on a
  \<open>SpecSafeValueArgument\<close> is the parameter \<open>chk\<close>.
\<close>

fun argsLoop ::
  "(string \<Rightarrow> error option) \<Rightarrow> Argument list \<Rightarrow> string list \<Rightarrow> string list
   \<Rightarrow> error + (string list \<times> string list)" where
  "argsLoop chk [] configFlags flags = Inr (configFlags, flags)"
| "argsLoop chk (FlagArgument s # rest) configFlags flags =
     argsLoop chk rest configFlags (flags @ [s])"
| "argsLoop chk (SpecSafeValueArgument s # rest) configFlags flags =
     (case chk s of
        Some err \<Rightarrow> Inl err
      | None \<Rightarrow> argsLoop chk rest configFlags (flags @ [s]))"
| "argsLoop chk (ValueFlagArgument f v # rest) configFlags flags =
     argsLoop chk rest configFlags (flags @ [f @ ''='' @ v])"
| "argsLoop chk (ConfigArgument k v # rest) configFlags flags =
     argsLoop chk rest (configFlags @ [''-c'', k @ ''='' @ v]) flags"
| "argsLoop chk (OtherArgument t # rest) configFlags flags =
     Inl (ErrUnknownArgumentType t)"

definition argsFromArguments ::
  "(string \<Rightarrow> error option) \<Rightarrow> string \<Rightarrow> Argument list \<Rightarrow> error + string list" where
  "argsFromArguments chk subcommand args =
     (case argsLoop chk args [] [] of
        Inl err \<Rightarrow> Inl err
      | Inr (configFlags, flags) \<Rightarrow> Inr (configFlags @ [subcommand] @ flags))"

text \<open>
  The ordering rule in the spec's words: the tokens of the ConfigOverride arguments,
  two for each, in input order; and the tokens of all other arguments, in input order.
\<close>

fun overrideTokens :: "Argument list \<Rightarrow> string list" where
  "overrideTokens [] = []"
| "overrideTokens (ConfigArgument k v # rest) = [''-c'', k @ ''='' @ v] @ overrideTokens rest"
| "overrideTokens (a # rest) = overrideTokens rest"

fun otherTokens :: "Argument list \<Rightarrow> string list" where
  "otherTokens [] = []"
| "otherTokens (FlagArgument s # rest) = s # otherTokens rest"
| "otherTokens (SpecSafeValueArgument s # rest) = s # otherTokens rest"
| "otherTokens (ValueFlagArgument f v # rest) = (f @ ''='' @ v) # otherTokens rest"
| "otherTokens (a # rest) = otherTokens rest"

text \<open>An argument the builder rejects: an unsafe SpecSafeValue, or an unknown shape.\<close>

fun rejected :: "(string \<Rightarrow> error option) \<Rightarrow> Argument \<Rightarrow> bool" where
  "rejected chk (SpecSafeValueArgument s) = (chk s \<noteq> None)"
| "rejected chk (OtherArgument t) = True"
| "rejected chk a = False"

text \<open>
  The two kinds of argument the spec has the builder reject, and the two errors the
  builder returns for them.
\<close>

fun unsafeSpec :: "Argument \<Rightarrow> bool" where
  "unsafeSpec (SpecSafeValueArgument s) = hasPrefix ''-'' s"
| "unsafeSpec a = False"

fun unknownShape :: "Argument \<Rightarrow> bool" where
  "unknownShape (OtherArgument t) = True"
| "unknownShape a = False"

fun isBuilderError :: "error \<Rightarrow> bool" where
  "isBuilderError (ErrBadSpec s) = True"
| "isBuilderError (ErrUnknownArgumentType t) = True"
| "isBuilderError e = False"

subsection \<open>Launching the process\<close>

record commandOpts =
  arguments :: "Argument list"
  env :: "string list"
  stdin :: "string option"

text \<open>
  What the operating system answers during one call of \<open>NewCommand\<close>: whether the
  caller's context carries a deadline, the error of \<^verbatim>\<open>cmd.StdoutPipe()\<close> and the
  error of \<^verbatim>\<open>wrappedCmd.Start()\<close>.
\<close>

record launchEnv =
  hasDeadline :: bool
  stdoutPipeErr :: "error option"
  startErr :: "error option"

text \<open>
  The state outside one invocation: the argument vector of every call of
  \<^verbatim>\<open>wrappedCmd.Start()\<close>, and the gauge \<open>execRunning\<close> by subcommand.
\<close>

record world =
  startCalls :: "string list list"
  execRunning :: "string \<Rightarrow> int"

datatype ctxUsed = Background | CallerCtx

datatype logEntry = Warn string | Error string error

text \<open>
  The reader of a running invocation. \<open>err\<close> and \<open>waitOnce\<close> are the fields of
  the Go struct (the flag is the done bit of the \<^verbatim>\<open>sync.Once\<close>); \<open>cmdArgs\<close> is
  \<^verbatim>\<open>cmd.Args\<close>; \<open>timeoutNs\<close> is the timeout \<open>NewCommand\<close> installed, if any.
  The remaining fields record effects: how often \<^verbatim>\<open>rc.cmd.Wait()\<close>, \<^verbatim>\<open>rc.trace()\<close>
  and \<^verbatim>\<open>rc.ctxCancel()\<close> have run, every \<^verbatim>\<open>git.Config().Set\<close> with the context
  it was given, and the log.
\<close>

record cmdReader =
  subcommand :: string
  cmdArgs :: "string list"
  timeoutNs :: "int option"
  err :: "error option"
  waitOnce :: bool
  waitCalls :: nat
  traceCalls :: nat
  cancelCalls :: nat
  configSets :: "(ctxUsed \<times> string \<times> int) list"
  logs :: "logEntry list"

definition gitCommandDefaultTimeout :: int where
  "gitCommandDefaultTimeout = 60 * 1000000000"

definition newReader :: "launchEnv \<Rightarrow> string \<Rightarrow> string list \<Rightarrow> cmdReader" where
  "newReader e sub args =
     \<lparr> subcommand = sub, cmdArgs = ''git'' # args,
       timeoutNs = (if hasDeadline e then None else Some gitCommandDefaultTimeout),
       err = None, waitOnce = False, waitCalls = 0, traceCalls = 0, cancelCalls = 0,
       configSets = [], logs = [] \<rparr>"

text \<open>
  \<open>NewCommand\<close>: build the tokens and return the builder's error before anything else
  happens; create the stdout pipe; start the process; count it as running. Tracing,
  the logger, the working directory and the environment variables are left out.
\<close>

definition NewCommand ::
  "(string \<Rightarrow> error option) \<Rightarrow> launchEnv \<Rightarrow> string \<Rightarrow> commandOpts \<Rightarrow> world
   \<Rightarrow> (error + cmdReader) \<times> world" where
  "NewCommand chk e sub opts w =
     (case argsFromArguments chk sub (arguments opts) of
        Inl er \<Rightarrow> (Inl er, w)
      | Inr args \<Rightarrow>
          (case stdoutPipeErr e of
             Some er \<Rightarrow> (Inl (Wrapped er ''failed to create stdout pipe''), w)
           | None \<Rightarrow>
               (let w1 = w\<lparr>startCalls := startCalls w @ [''git'' # args]\<rparr> in
                case startErr e of
                  Some er \<Rightarrow> (Inl (Wrapped er ''failed to start git process''), w1)
                | None \<Rightarrow>
                    (Inr (newReader e sub args),
                     w1\<lparr>execRunning := (execRunning w1)(sub := execRunning w1 sub + 1)\<rparr>))))"

subsection \<open>Bounded stderr capture\<close>

definition maxStderrCapture :: int where
  "maxStderrCapture = 1024"

text \<open>
  \<open>limitWriter\<close>: \<open>W\<close> is the underlying writer, here the contents of the
  \<^verbatim>\<open>bytes.Buffer\<close> that \<open>stderrBuffer\<close> creates, and \<open>N\<close> the bytes remaining.
  Writing to a \<^verbatim>\<open>bytes.Buffer\<close> appends all of \<open>p\<close> and returns its length and no error.
\<close>

record limitWriter =
  W :: string
  N :: int

definition stderrBuffer :: limitWriter where
  "stderrBuffer = \<lparr> W = [], N = maxStderrCapture \<rparr>"

definition bufferWrite :: "string \<Rightarrow> string \<Rightarrow> (int \<times> error option) \<times> string" where
  "bufferWrite p buf = ((int (length p), None), buf @ p)"

definition Write :: "string \<Rightarrow> limitWriter \<Rightarrow> (int \<times> error option) \<times> limitWriter" where
  "Write p l =
     (if N l \<le> 0 then ((int (length p), None), l)
      else
        (let origLen = int (length p);
             p1 = (if int (length p) > N l then take (nat (N l)) p else p);
             ((n, er), buf) = bufferWrite p1 (W l);
             n1 = N l - n
         in ((if n1 \<le> 0 then origLen else n, er), \<lparr> W = buf, N = n1 \<rparr>)))"

text \<open>The writes of one process to its stderr, in order.\<close>

fun writeAll :: "string list \<Rightarrow> limitWriter \<Rightarrow> limitWriter" where
  "writeAll [] l = l"
| "writeAll (p # ps) l = writeAll ps (snd (Write p l))"

subsection \<open>Corruption heuristic\<close>

text \<open>
  The two patterns are compiled with \<^verbatim>\<open>lazyregexp.NewPOSIX\<close>. Only what they use of
  the regular expression syntax is modelled: a literal, an alternation, a
  concatenation, and \<^verbatim>\<open>^\<close>, which in Go's POSIX syntax matches at the beginning of
  the text and after every newline. A position of the matcher is the byte before it,
  if any, and the text that remains.
\<close>

datatype regexp = BeginLine | Lit string | Alt regexp regexp | Cat regexp regexp

fun step :: "regexp \<Rightarrow> char option \<times> string \<Rightarrow> (char option \<times> string) list" where
  "step BeginLine (prev, s) =
     (if prev = None \<or> prev = Some (CHR 0x0A) then [(prev, s)] else [])"
| "step (Lit l) (prev, s) =
     (if hasPrefix l s then [(if l = [] then prev else Some (last l), drop (length l) s)]
      else [])"
| "step (Alt a b) p = step a p @ step b p"
| "step (Cat a b) p = concat (map (step b) (step a p))"

fun positions :: "char option \<Rightarrow> string \<Rightarrow> (char option \<times> string) list" where
  "positions prev [] = [(prev, [])]"
| "positions prev (c # cs) = (prev, c # cs) # positions (Some c) cs"

definition MatchString :: "regexp \<Rightarrow> string \<Rightarrow> bool" where
  "MatchString re s = list_ex (\<lambda>p. step re p \<noteq> []) (positions None s)"

text \<open>The text before a position at which a line begins.\<close>

definition lineStart :: "string \<Rightarrow> bool" where
  "lineStart pre = (pre = [] \<or> last pre = CHR 0x0A)"

definition objectOrPackFileCorruptionRegex :: regexp where
  "objectOrPackFileCorruptionRegex =
     Cat BeginLine (Cat (Lit ''error: '')
       (Cat (Alt (Lit ''Could not read'') (Lit ''packfile'')) (Lit '' '')))"

definition commitGraphCorruptionRegex :: regexp where
  "commitGraphCorruptionRegex =
     Cat BeginLine
       (Lit ''fatal: commit-graph requires overflow generation data but has none'')"

definition stdErrIndicatesCorruption :: "string \<Rightarrow> bool" where
  "stdErrIndicatesCorruption stderr =
     (MatchString objectOrPackFileCorruptionRegex stderr
      \<or> MatchString commitGraphCorruptionRegex stderr)"

definition gitConfigMaybeCorrupt :: string where
  "gitConfigMaybeCorrupt = ''sourcegraph.maybeCorruptRepo''"

text \<open>
  \<open>checkMaybeCorruptRepo\<close>, on the effect fields of the reader. \<open>setErr\<close> is what
  \<^verbatim>\<open>git.Config().Set\<close> returns and \<open>now\<close> is \<^verbatim>\<open>time.Now().Unix()\<close>; the value
  written is the decimal text of \<open>now\<close>, kept here as the number.
\<close>

definition checkMaybeCorruptRepo ::
  "error option \<Rightarrow> int \<Rightarrow> string \<Rightarrow> cmdReader \<Rightarrow> bool \<times> cmdReader" where
  "checkMaybeCorruptRepo setErr now stderr rc =
     (if \<not> stdErrIndicatesCorruption stderr then (False, rc)
      else
        (let rc1 = rc\<lparr>logs := logs rc @
               [Warn ''marking repo for re-cloning due to stderr output indicating repo corruption'']\<rparr>;
             rc2 = rc1\<lparr>configSets := configSets rc1 @ [(Background, gitConfigMaybeCorrupt, now)]\<rparr>;
             rc3 = (case setErr of
                      Some er \<Rightarrow> rc2\<lparr>logs := logs rc2 @
                        [Error ''failed to set maybeCorruptRepo config'' er]\<rparr>
                    | None \<Rightarrow> rc2)
         in (True, rc3)))"

subsection \<open>Streaming result reader\<close>

text \<open>
  What the environment answers when the wait step runs: the error of
  \<^verbatim>\<open>rc.cmd.Wait()\<close>, the exit code of the process state, the writes of the process
  to its stderr, \<^verbatim>\<open>rc.ctx.Err()\<close> at that moment, the error of the marker write and
  the clock.
\<close>

record procExit =
  waitErr :: "error option"
  exitCode :: int
  stderrWrites :: "string list"
  ctxErr :: "error option"
  configSetErr :: "error option"
  unixNow :: int

definition capturedStderr :: "procExit \<Rightarrow> string" where
  "capturedStderr px = W (writeAll (stderrWrites px) stderrBuffer)"

definition commandFailedError ::
  "error option \<Rightarrow> error \<Rightarrow> string list \<Rightarrow> int \<Rightarrow> string \<Rightarrow> error" where
  "commandFailedError cerr er args code stderr =
     (case cerr of
        Some ce \<Rightarrow> ce
      | None \<Rightarrow> CommandFailedError stderr code er args)"

text \<open>The function that \<open>waitCmd\<close> hands to \<^verbatim>\<open>rc.waitOnce.Do\<close>.\<close>

definition waitBody :: "procExit \<Rightarrow> cmdReader \<Rightarrow> cmdReader" where
  "waitBody px rc =
     (let rc1 = rc\<lparr>err := waitErr px, waitCalls := waitCalls rc + 1\<rparr>;
          rc2 = (case err rc1 of
                   None \<Rightarrow> rc1
                 | Some er \<Rightarrow>
                     (case checkMaybeCorruptRepo (configSetErr px) (unixNow px)
                             (capturedStderr px) rc1 of
                        (True, rc') \<Rightarrow> rc'\<lparr>err := Some (ErrRepoCorrupted (capturedStderr px))\<rparr>
                      | (False, rc') \<Rightarrow>
                          rc'\<lparr>err := Some (commandFailedError (ctxErr px) er (cmdArgs rc')
                                   (exitCode px) (capturedStderr px))\<rparr>))
      in rc2\<lparr>traceCalls := traceCalls rc2 + 1, cancelCalls := cancelCalls rc2 + 1\<rparr>)"

definition waitCmd :: "procExit \<Rightarrow> cmdReader \<Rightarrow> error option \<times> cmdReader" where
  "waitCmd px rc =
     (let rc1 = (if waitOnce rc then rc else (waitBody px rc)\<lparr>waitOnce := True\<rparr>)
      in (err rc1, rc1))"

text \<open>
  \<open>Read\<close>: \<open>r\<close> is what \<^verbatim>\<open>rc.stdout.Read(p)\<close> returned, a byte count and an error.
  \<open>Close\<close> is the wait step. Both run under the mutex of the reader, so calls on one
  reader happen one after the other. \<open>rc.stdout\<close> is the pipe of \<^verbatim>\<open>cmd.StdoutPipe()\<close>,
  which the wait of the process closes: a read of it after the wait step answers the
  error of a closed file, not the end of the stream.
\<close>

definition Read ::
  "nat \<times> error option \<Rightarrow> procExit \<Rightarrow> cmdReader \<Rightarrow> (nat \<times> error option) \<times> cmdReader" where
  "Read r px rc =
     (case r of (n, er) \<Rightarrow>
        if er = Some EOF then
          (case waitCmd px rc of
             (Some werr, rc1) \<Rightarrow> ((n, Some werr), rc1)
           | (None, rc1) \<Rightarrow> ((n, er), rc1))
        else ((n, er), rc))"

definition Close :: "procExit \<Rightarrow> cmdReader \<Rightarrow> error option \<times> cmdReader" where
  "Close px rc = waitCmd px rc"

text \<open>A call on the reader, and a run of calls, each with the environment's answer.\<close>

datatype call = ReadCall nat "error option" | CloseCall

fun perform :: "call \<Rightarrow> procExit \<Rightarrow> cmdReader \<Rightarrow> error option \<times> cmdReader" where
  "perform (ReadCall n er) px rc = (case Read (n, er) px rc of ((m, res), rc1) \<Rightarrow> (res, rc1))"
| "perform CloseCall px rc = Close px rc"

fun run :: "(call \<times> procExit) list \<Rightarrow> cmdReader \<Rightarrow> cmdReader" where
  "run [] rc = rc"
| "run ((c, px) # cs) rc = run cs (snd (perform c px rc))"

fun waits :: "call \<Rightarrow> bool" where
  "waits (ReadCall n er) = (er = Some EOF)"
| "waits CloseCall = True"

text \<open>The chain of causes of an error, as repeated unwrapping finds it.\<close>

fun chain :: "error \<Rightarrow> error list" where
  "chain (CommandFailedError stderr exitStatus inner args) =
     CommandFailedError stderr exitStatus inner args # chain inner"
| "chain (Wrapped e msg) = Wrapped e msg # chain e"
| "chain e = [e]"

subsection \<open>Resource accounting and sampling\<close>

text \<open>
  Modelled from the spec: the type \<^verbatim>\<open>bytesize.Bytes\<close> and its units \<^verbatim>\<open>bytesize.B\<close> and
  \<^verbatim>\<open>bytesize.KiB\<close> are declared outside the sources. The raw value is an
  \<^verbatim>\<open>int64\<close>; the spec has one platform report bytes and the other kibibytes, so the
  units are 1 and 1024 and the product is a 64-bit one.
\<close>

definition bytesize_B :: "64 word" where
  "bytesize_B = 1"

definition bytesize_KiB :: "64 word" where
  "bytesize_KiB = 1024 * bytesize_B"

text \<open>\<open>goos\<close> is \<^verbatim>\<open>runtime.GOOS\<close>.\<close>

definition rssToByteSize :: "string \<Rightarrow> 64 word \<Rightarrow> 64 word" where
  "rssToByteSize goos rss =
     (if goos = ''darwin'' then rss * bytesize_B else rss * bytesize_KiB)"

text \<open>
  What \<open>trace\<close> computes as \<open>memUsage\<close>: \<open>sysUsage\<close> is the \<open>Maxrss\<close> of the
  resource usage of the process state, or \<open>None\<close> when the process state has no
  \<^verbatim>\<open>*syscall.Rusage\<close>; then the zero value is used.
\<close>

definition memUsage :: "string \<Rightarrow> 64 word option \<Rightarrow> 64 word" where
  "memUsage goos sysUsage =
     rssToByteSize goos (case sysUsage of Some maxrss \<Rightarrow> maxrss | None \<Rightarrow> 0)"

text \<open>
  The actor of a request: its \<open>UID\<close> (an \<^verbatim>\<open>int32\<close>) and what its method
  \<^verbatim>\<open>IsInternal()\<close> answers. \<open>HoneySampleRate\<close> takes a pointer: on \<^verbatim>\<open>nil\<close> the
  read of \<^verbatim>\<open>actor.UID\<close> panics, which is the result \<open>None\<close>.
\<close>

record Actor =
  UID :: "32 word"
  IsInternal :: bool

definition HoneySampleRate :: "string \<Rightarrow> Actor option \<Rightarrow> nat option" where
  "HoneySampleRate cmd actor =
     (case actor of
        None \<Rightarrow> None
      | Some a \<Rightarrow>
          (let internal = (IsInternal a \<or> UID a = 0) in
           if (cmd = ''rev-parse'' \<or> cmd = ''rev-list'' \<or> cmd = ''config'') \<and> internal
             then Some (push_bit 14 1)
           else if internal then Some 16
           else Some 8))"

section \<open>Properties of the command builder\<close>

lemma argsLoop_ok:
  "argsLoop chk args cf fl = Inr (cf', fl') \<Longrightarrow>
     cf' = cf @ overrideTokens args \<and> fl' = fl @ otherTokens args"
  by (induction chk args cf fl rule: argsLoop.induct) (auto split: option.splits)

lemma argsLoop_accepts:
  "list_all (\<lambda>a. \<not> rejected chk a) args \<Longrightarrow>
     argsLoop chk args cf fl = Inr (cf @ overrideTokens args, fl @ otherTokens args)"
  by (induction chk args cf fl rule: argsLoop.induct) auto

lemma argsLoop_rejects:
  "list_ex (rejected chk) args \<Longrightarrow> \<exists>er. argsLoop chk args cf fl = Inl er"
  by (induction chk args cf fl rule: argsLoop.induct) (auto split: option.splits)

text \<open>
  C2. For every subcommand and every sequence of arguments the builder accepts, the
  token list is the ConfigOverride pairs (\<^verbatim>\<open>-c\<close>, \<^verbatim>\<open>key=value\<close>) in input order,
  then the subcommand, then the tokens of all other arguments in input order; the
  builder accepts every sequence with no rejected argument; and \<^verbatim>\<open>log\<close> with
  the override \<^verbatim>\<open>core.test=1\<close> and the value \<^verbatim>\<open>HEAD\<close> gives
  \<^verbatim>\<open>-c core.test=1 log HEAD\<close>.
\<close>

theorem C2_token_order:
  "(argsFromArguments chk sub args = Inr out \<longrightarrow>
      out = overrideTokens args @ [sub] @ otherTokens args)
   \<and> (list_all (\<lambda>a. \<not> rejected chk a) args \<longrightarrow>
      argsFromArguments chk sub args
        = Inr (overrideTokens args @ [sub] @ otherTokens args))
   \<and> (chk ''HEAD'' = None \<longrightarrow>
      argsFromArguments chk ''log''
          [ConfigArgument ''core.test'' ''1'', SpecSafeValueArgument ''HEAD'']
        = Inr [''-c'', ''core.test=1'', ''log'', ''HEAD''])"
proof (intro conjI impI)
  assume built: "argsFromArguments chk sub args = Inr out"
  then obtain cf fl where loop: "argsLoop chk args [] [] = Inr (cf, fl)"
    and out: "out = cf @ [sub] @ fl"
    by (auto simp: argsFromArguments_def split: sum.splits)
  from argsLoop_ok [OF loop] out
  show "out = overrideTokens args @ [sub] @ otherTokens args"
    by simp
next
  assume "list_all (\<lambda>a. \<not> rejected chk a) args"
  then show "argsFromArguments chk sub args
      = Inr (overrideTokens args @ [sub] @ otherTokens args)"
    by (simp add: argsFromArguments_def argsLoop_accepts)
next
  assume "chk ''HEAD'' = None"
  then show "argsFromArguments chk ''log''
      [ConfigArgument ''core.test'' ''1'', SpecSafeValueArgument ''HEAD'']
    = Inr [''-c'', ''core.test=1'', ''log'', ''HEAD'']"
    by (simp add: argsFromArguments_def)
qed

theorem C2_token_order_witness:
  "argsFromArguments checkSpecArgSafety ''log''
      [ConfigArgument ''core.test'' ''1'', SpecSafeValueArgument ''HEAD'']
     = Inr [''-c'', ''core.test=1'', ''log'', ''HEAD'']
   \<and> argsFromArguments checkSpecArgSafety ''fetch''
      [FlagArgument ''--prune'', ConfigArgument ''a.b'' ''1'', ValueFlagArgument ''--depth'' ''2'',
       ConfigArgument ''c.d'' ''x'', SpecSafeValueArgument ''origin'']
     = Inr [''-c'', ''a.b=1'', ''-c'', ''c.d=x'', ''fetch'', ''--prune'', ''--depth=2'', ''origin'']
   \<and> [''-c'', ''core.test=1'', ''log'', ''HEAD'']
     = overrideTokens [ConfigArgument ''core.test'' ''1'', SpecSafeValueArgument ''HEAD'']
       @ [''log'']
       @ otherTokens [ConfigArgument ''core.test'' ''1'', SpecSafeValueArgument ''HEAD'']"
proof -
  let ?a1 = "[ConfigArgument ''core.test'' ''1'', SpecSafeValueArgument ''HEAD'']"
  let ?a2 = "[FlagArgument ''--prune'', ConfigArgument ''a.b'' ''1'',
       ValueFlagArgument ''--depth'' ''2'', ConfigArgument ''c.d'' ''x'',
       SpecSafeValueArgument ''origin'']"
  have head: "checkSpecArgSafety ''HEAD'' = None"
    by (simp add: checkSpecArgSafety_def)
  have ok: "list_all (\<lambda>a. \<not> rejected checkSpecArgSafety a) ?a2"
    by (simp add: checkSpecArgSafety_def)
  from C2_token_order [of checkSpecArgSafety "''log''" ?a1] head
  have first: "argsFromArguments checkSpecArgSafety ''log'' ?a1
     = Inr [''-c'', ''core.test=1'', ''log'', ''HEAD'']"
    by blast
  from C2_token_order [of checkSpecArgSafety "''log''" ?a1
      "[''-c'', ''core.test=1'', ''log'', ''HEAD'']"] first
  have third: "[''-c'', ''core.test=1'', ''log'', ''HEAD'']
      = overrideTokens ?a1 @ [''log''] @ otherTokens ?a1"
    by blast
  from C2_token_order [of checkSpecArgSafety "''fetch''" ?a2] ok
  have "argsFromArguments checkSpecArgSafety ''fetch'' ?a2
     = Inr (overrideTokens ?a2 @ [''fetch''] @ otherTokens ?a2)"
    by blast
  then have second: "argsFromArguments checkSpecArgSafety ''fetch'' ?a2
     = Inr [''-c'', ''a.b=1'', ''-c'', ''c.d=x'', ''fetch'', ''--prune'', ''--depth=2'', ''origin'']"
    by simp
  from first second third show ?thesis
    by blast
qed

lemma argsLoop_skip:
  "list_all (\<lambda>a. \<not> rejected chk a) pre \<Longrightarrow>
     argsLoop chk (pre @ rest) cf fl
       = argsLoop chk rest (cf @ overrideTokens pre) (fl @ otherTokens pre)"
  by (induction chk pre cf fl rule: argsLoop.induct) auto

lemma argsLoop_error_kind:
  "argsLoop checkSpecArgSafety args cf fl = Inl er \<Longrightarrow> isBuilderError er"
  by (induction checkSpecArgSafety args cf fl rule: argsLoop.induct)
     (auto simp: checkSpecArgSafety_def split: option.splits if_splits)

lemma unsafeSpec_rejected: "unsafeSpec a \<Longrightarrow> rejected checkSpecArgSafety a"
  by (cases a) (simp_all add: checkSpecArgSafety_def)

lemma unknownShape_rejected: "unknownShape a \<Longrightarrow> rejected chk a"
  by (cases a) simp_all

lemma builder_rejects:
  assumes "list_ex (rejected checkSpecArgSafety) args"
  shows "\<exists>er. isBuilderError er \<and> argsFromArguments checkSpecArgSafety sub args = Inl er"
proof -
  from argsLoop_rejects [OF assms] obtain er
    where loop: "argsLoop checkSpecArgSafety args [] [] = Inl er"
    by blast
  from argsLoop_error_kind [OF loop] loop show ?thesis
    by (simp add: argsFromArguments_def)
qed

lemma NewCommand_builder_error:
  "argsFromArguments chk sub (arguments opts) = Inl er \<Longrightarrow>
     NewCommand chk e sub opts w = (Inl er, w)"
  by (simp add: NewCommand_def)

text \<open>
  C3. A sequence of arguments that holds a SpecSafeValue beginning with \<^verbatim>\<open>-\<close> is
  rejected by the builder with one of its two errors, and \<open>NewCommand\<close> returns that
  error with the world unchanged: no process is started. The same holds for a sequence
  that holds an argument of none of the four shapes. When the unsafe value is the first
  argument the builder rejects, the error is the one of the safety check; when the
  unknown shape is, the error is the one that names the unknown type.
\<close>

theorem C3_builder_rejects:
  "(list_ex unsafeSpec (arguments opts) \<longrightarrow>
      (\<exists>er. isBuilderError er
         \<and> argsFromArguments checkSpecArgSafety sub (arguments opts) = Inl er
         \<and> NewCommand checkSpecArgSafety e sub opts w = (Inl er, w)))
   \<and> (list_ex unknownShape (arguments opts) \<longrightarrow>
      (\<exists>er. isBuilderError er
         \<and> argsFromArguments checkSpecArgSafety sub (arguments opts) = Inl er
         \<and> NewCommand checkSpecArgSafety e sub opts w = (Inl er, w)))
   \<and> (list_all (\<lambda>a. \<not> rejected checkSpecArgSafety a) pre \<and> hasPrefix ''-'' s \<longrightarrow>
        argsFromArguments checkSpecArgSafety sub (pre @ SpecSafeValueArgument s # post)
          = Inl (ErrBadSpec s))
   \<and> (list_all (\<lambda>a. \<not> rejected checkSpecArgSafety a) pre \<longrightarrow>
        argsFromArguments checkSpecArgSafety sub (pre @ OtherArgument t # post)
          = Inl (ErrUnknownArgumentType t))"
proof (intro conjI impI)
  assume "list_ex unsafeSpec (arguments opts)"
  then have "list_ex (rejected checkSpecArgSafety) (arguments opts)"
    by (auto simp: list_ex_iff dest: unsafeSpec_rejected)
  from builder_rejects [OF this, of sub]
  show "\<exists>er. isBuilderError er
      \<and> argsFromArguments checkSpecArgSafety sub (arguments opts) = Inl er
      \<and> NewCommand checkSpecArgSafety e sub opts w = (Inl er, w)"
    by (auto simp: NewCommand_builder_error)
next
  assume "list_ex unknownShape (arguments opts)"
  then have "list_ex (rejected checkSpecArgSafety) (arguments opts)"
    by (auto simp: list_ex_iff dest: unknownShape_rejected)
  from builder_rejects [OF this, of sub]
  show "\<exists>er. isBuilderError er
      \<and> argsFromArguments checkSpecArgSafety sub (arguments opts) = Inl er
      \<and> NewCommand checkSpecArgSafety e sub opts w = (Inl er, w)"
    by (auto simp: NewCommand_builder_error)
next
  assume "list_all (\<lambda>a. \<not> rejected checkSpecArgSafety a) pre \<and> hasPrefix ''-'' s"
  then show "argsFromArguments checkSpecArgSafety sub (pre @ SpecSafeValueArgument s # post)
      = Inl (ErrBadSpec s)"
    by (simp add: argsFromArguments_def argsLoop_skip checkSpecArgSafety_def)
next
  assume "list_all (\<lambda>a. \<not> rejected checkSpecArgSafety a) pre"
  then show "argsFromArguments checkSpecArgSafety sub (pre @ OtherArgument t # post)
      = Inl (ErrUnknownArgumentType t)"
    by (simp add: argsFromArguments_def argsLoop_skip)
qed

theorem C3_builder_rejects_witness:
  "NewCommand checkSpecArgSafety
      \<lparr>hasDeadline = False, stdoutPipeErr = None, startErr = None\<rparr> ''log''
      \<lparr>arguments = [FlagArgument ''--oneline'', SpecSafeValueArgument ''-rf'',
         SpecSafeValueArgument ''HEAD''],
       env = [], stdin = None\<rparr>
      \<lparr>startCalls = [], execRunning = (\<lambda>c. 0)\<rparr>
     = (Inl (ErrBadSpec ''-rf''), \<lparr>startCalls = [], execRunning = (\<lambda>c. 0)\<rparr>)
   \<and> NewCommand checkSpecArgSafety
      \<lparr>hasDeadline = False, stdoutPipeErr = None, startErr = None\<rparr> ''log''
      \<lparr>arguments = [FlagArgument ''--oneline'', OtherArgument ''<nil>'',
         SpecSafeValueArgument ''HEAD''],
       env = [], stdin = None\<rparr>
      \<lparr>startCalls = [], execRunning = (\<lambda>c. 0)\<rparr>
     = (Inl (ErrUnknownArgumentType ''<nil>''), \<lparr>startCalls = [], execRunning = (\<lambda>c. 0)\<rparr>)"
proof -
  let ?opts = "\<lparr>arguments = [FlagArgument ''--oneline'', SpecSafeValueArgument ''-rf'',
         SpecSafeValueArgument ''HEAD''],
       env = [], stdin = None\<rparr>"
  let ?opts2 = "\<lparr>arguments = [FlagArgument ''--oneline'', OtherArgument ''<nil>'',
         SpecSafeValueArgument ''HEAD''],
       env = [], stdin = None\<rparr>"
  let ?e = "\<lparr>hasDeadline = False, stdoutPipeErr = None, startErr = None\<rparr>"
  let ?w = "\<lparr>startCalls = [], execRunning = (\<lambda>c. 0::int)\<rparr>"
  have unsafe: "list_ex unsafeSpec (arguments ?opts)"
    by simp
  have unknown: "list_ex unknownShape (arguments ?opts2)"
    by simp
  have pre: "list_all (\<lambda>a. \<not> rejected checkSpecArgSafety a) [FlagArgument ''--oneline'']"
    by simp
  have dash: "hasPrefix ''-'' ''-rf''"
    by simp
  note c3 = C3_builder_rejects [of ?opts "''log''" ?e ?w "[FlagArgument ''--oneline'']"
      "''-rf''" "[SpecSafeValueArgument ''HEAD'']" "''<nil>''"]
  note c3' = C3_builder_rejects [of ?opts2 "''log''" ?e ?w "[FlagArgument ''--oneline'']"
      "''-rf''" "[SpecSafeValueArgument ''HEAD'']" "''<nil>''"]
  from c3 unsafe obtain er
    where bad: "argsFromArguments checkSpecArgSafety ''log'' (arguments ?opts) = Inl er"
      and new: "NewCommand checkSpecArgSafety ?e ''log'' ?opts ?w = (Inl er, ?w)"
    by blast
  from c3 pre dash
  have "argsFromArguments checkSpecArgSafety ''log''
      ([FlagArgument ''--oneline''] @ SpecSafeValueArgument ''-rf'' #
        [SpecSafeValueArgument ''HEAD'']) = Inl (ErrBadSpec ''-rf'')"
    by blast
  with bad have er: "er = ErrBadSpec ''-rf''"
    by simp
  from c3' unknown obtain er2
    where bad2: "argsFromArguments checkSpecArgSafety ''log'' (arguments ?opts2) = Inl er2"
      and new2: "NewCommand checkSpecArgSafety ?e ''log'' ?opts2 ?w = (Inl er2, ?w)"
    by blast
  from c3' pre
  have "argsFromArguments checkSpecArgSafety ''log''
      ([FlagArgument ''--oneline''] @ OtherArgument ''<nil>'' # [SpecSafeValueArgument ''HEAD''])
      = Inl (ErrUnknownArgumentType ''<nil>'')"
    by blast
  with bad2 have er2: "er2 = ErrUnknownArgumentType ''<nil>''"
    by simp
  from new er new2 er2 show ?thesis
    by simp
qed

section \<open>Properties of the bounded stderr capture\<close>

lemma Write_step:
  "N l = int n \<Longrightarrow>
     snd (Write p l) = \<lparr> W = W l @ take n p, N = int (n - length p) \<rparr>"
  by (cases l) (auto simp: Write_def bufferWrite_def Let_def)

lemma Write_count: "fst (Write p l) = (int (length p), None)"
  by (auto simp: Write_def bufferWrite_def Let_def split: prod.splits)

lemma writeAll_inv:
  "N l = int n \<Longrightarrow>
     W (writeAll ps l) = W l @ take n (concat ps)
     \<and> N (writeAll ps l) = int (n - length (concat ps))"
proof (induction ps arbitrary: l n)
  case Nil
  then show ?case by simp
next
  case (Cons p ps)
  let ?l1 = "snd (Write p l)"
  from Cons.prems have l1: "?l1 = \<lparr> W = W l @ take n p, N = int (n - length p) \<rparr>"
    by (rule Write_step)
  then have n1: "N ?l1 = int (n - length p)" by simp
  from Cons.IH [OF n1] l1 show ?case
    by simp
qed


text \<open>
  C7. Whatever the process writes to its stderr, the buffer behind the limit writer of
  \<open>stderrBuffer\<close> holds the first 1024 bytes written and never more, and \<open>N\<close> is
  what remains of the 1024. Every write reports the full length of its input and no
  error: a write that crosses the cap stores what still fits and discards the rest, and
  a write that arrives when the cap is exhausted leaves the buffer as it is.
\<close>

theorem C7_bounded_stderr:
  "W (writeAll ws stderrBuffer) = take 1024 (concat ws)
   \<and> length (W (writeAll ws stderrBuffer)) \<le> 1024
   \<and> N (writeAll ws stderrBuffer) = 1024 - int (length (W (writeAll ws stderrBuffer)))
   \<and> fst (Write p (writeAll ws stderrBuffer)) = (int (length p), None)
   \<and> (0 < N l \<and> N l < int (length p) \<longrightarrow>
        Write p l = ((int (length p), None), \<lparr> W = W l @ take (nat (N l)) p, N = 0 \<rparr>))
   \<and> (N l \<le> 0 \<longrightarrow> Write p l = ((int (length p), None), l))
   \<and> (1024 \<le> length (concat ws) \<longrightarrow>
        Write p (writeAll ws stderrBuffer)
          = ((int (length p), None), writeAll ws stderrBuffer))"
proof -
  let ?l = "writeAll ws stderrBuffer"
  have start: "N stderrBuffer = int 1024" "W stderrBuffer = []"
    by (simp_all add: stderrBuffer_def maxStderrCapture_def)
  from writeAll_inv [OF start(1), of ws] start(2)
  have w: "W ?l = take 1024 (concat ws)"
    and n: "N ?l = int (1024 - length (concat ws))"
    by simp_all
  have len: "length (W ?l) \<le> 1024"
    by (simp add: w)
  have rem: "N ?l = 1024 - int (length (W ?l))"
    by (simp add: w n min_def)
  have cnt: "fst (Write p ?l) = (int (length p), None)"
    by (rule Write_count)
  have cross: "0 < N l \<and> N l < int (length p) \<longrightarrow>
      Write p l = ((int (length p), None), \<lparr> W = W l @ take (nat (N l)) p, N = 0 \<rparr>)"
    by (auto simp: Write_def bufferWrite_def Let_def min_def)
  have spent: "N l \<le> 0 \<longrightarrow> Write p l = ((int (length p), None), l)"
    by (simp add: Write_def)
  have full: "1024 \<le> length (concat ws) \<longrightarrow> Write p ?l = ((int (length p), None), ?l)"
    by (simp add: Write_def n)
  from w len rem cnt cross spent full show ?thesis
    by blast
qed

theorem C7_bounded_stderr_witness:
  "length (W (writeAll [replicate 1000 CHR ''a'', replicate 100 CHR ''b''] stderrBuffer)) = 1024
   \<and> Write ''xyz'' (writeAll [replicate 1000 CHR ''a'', replicate 100 CHR ''b''] stderrBuffer)
       = ((3, None), writeAll [replicate 1000 CHR ''a'', replicate 100 CHR ''b''] stderrBuffer)
   \<and> Write ''abcdef'' \<lparr> W = ''12'', N = 4 \<rparr> = ((6, None), \<lparr> W = ''12abcd'', N = 0 \<rparr>)
   \<and> Write ''abcdef'' \<lparr> W = ''12abcd'', N = 0 \<rparr> = ((6, None), \<lparr> W = ''12abcd'', N = 0 \<rparr>)"
proof -
  let ?ws = "[replicate 1000 CHR ''a'', replicate 100 CHR ''b'']"
  have big: "1024 \<le> length (concat ?ws)"
    by simp
  from C7_bounded_stderr [of ?ws "''xyz''" "\<lparr> W = ''12'', N = 4 \<rparr>"] big
  have a: "length (W (writeAll ?ws stderrBuffer)) = 1024"
    and b: "Write ''xyz'' (writeAll ?ws stderrBuffer) = ((3, None), writeAll ?ws stderrBuffer)"
    by simp_all
  have h1: "0 < N \<lparr> W = ''12'', N = 4 \<rparr> \<and> N \<lparr> W = ''12'', N = 4 \<rparr> < int (length ''abcdef'')"
    by simp
  from C7_bounded_stderr [of ?ws "''abcdef''" "\<lparr> W = ''12'', N = 4 \<rparr>"] h1
  have c: "Write ''abcdef'' \<lparr> W = ''12'', N = 4 \<rparr> = ((6, None), \<lparr> W = ''12abcd'', N = 0 \<rparr>)"
    by simp
  have h2: "N \<lparr> W = ''12abcd'', N = 0 \<rparr> \<le> 0"
    by simp
  from C7_bounded_stderr [of ?ws "''abcdef''" "\<lparr> W = ''12abcd'', N = 0 \<rparr>"] h2
  have d: "Write ''abcdef'' \<lparr> W = ''12abcd'', N = 0 \<rparr> = ((6, None), \<lparr> W = ''12abcd'', N = 0 \<rparr>)"
    by simp
  from a b c d show ?thesis
    by blast
qed

section \<open>Properties of the corruption heuristic\<close>

lemma hasPrefix_append:
  "hasPrefix (a @ b) s = (hasPrefix a s \<and> hasPrefix b (drop (length a) s))"
  by (induction a s rule: hasPrefix.induct) auto

lemma positions_set:
  "set (positions prev s)
     = {(if pre = [] then prev else Some (last pre), suf) | pre suf. s = pre @ suf}"
proof (induction s arbitrary: prev)
  case Nil
  then show ?case by auto
next
  case (Cons c cs)
  show ?case
  proof (rule set_eqI, rule iffI)
    fix x
    assume "x \<in> set (positions prev (c # cs))"
    then consider "x = (prev, c # cs)" | "x \<in> set (positions (Some c) cs)"
      by auto
    then show "x \<in> {(if pre = [] then prev else Some (last pre), suf) | pre suf. c # cs = pre @ suf}"
    proof cases
      case 1
      then have "x = (if [] = [] then prev else Some (last []), c # cs) \<and> c # cs = [] @ (c # cs)"
        by simp
      then show ?thesis by blast
    next
      case 2
      with Cons.IH [of "Some c"] obtain pre suf
        where x: "x = (if pre = [] then Some c else Some (last pre), suf)" and cs: "cs = pre @ suf"
        by auto
      then have "x = (if c # pre = [] then prev else Some (last (c # pre)), suf) \<and> c # cs = (c # pre) @ suf"
        by simp
      then show ?thesis by blast
    qed
  next
    fix x
    assume "x \<in> {(if pre = [] then prev else Some (last pre), suf) | pre suf. c # cs = pre @ suf}"
    then obtain pre suf
      where x: "x = (if pre = [] then prev else Some (last pre), suf)" and s: "c # cs = pre @ suf"
      by blast
    show "x \<in> set (positions prev (c # cs))"
    proof (cases pre)
      case Nil
      with x s [symmetric] show ?thesis by simp
    next
      case (Cons d pre')
      with s have d: "d = c" and cs: "cs = pre' @ suf" by simp_all
      from x Cons have "x = (if pre' = [] then Some c else Some (last pre'), suf)"
        by (simp add: d)
      with cs have "x \<in> {(if pre = [] then Some c else Some (last pre), suf) | pre suf. cs = pre @ suf}"
        by blast
      with Cons.IH [of "Some c"] show ?thesis by simp
    qed
  qed
qed

lemma MatchString_iff:
  "MatchString re s
     = (\<exists>pre suf. s = pre @ suf \<and> step re (if pre = [] then None else Some (last pre), suf) \<noteq> [])"
  unfolding MatchString_def list_ex_iff positions_set by blast

lemma step_objectOrPackFile:
  "(step objectOrPackFileCorruptionRegex (p, suf) \<noteq> [])
     = ((p = None \<or> p = Some (CHR 0x0A))
        \<and> (hasPrefix ''error: Could not read '' suf \<or> hasPrefix ''error: packfile '' suf))"
  using hasPrefix_append [of "''error: ''" "''Could not read ''" suf]
    hasPrefix_append [of "''Could not read''" "'' ''" "drop (length ''error: '') suf"]
    hasPrefix_append [of "''error: ''" "''packfile ''" suf]
    hasPrefix_append [of "''packfile''" "'' ''" "drop (length ''error: '') suf"]
  by (auto simp: objectOrPackFileCorruptionRegex_def)

lemma step_commitGraph:
  "(step commitGraphCorruptionRegex (p, suf) \<noteq> [])
     = ((p = None \<or> p = Some (CHR 0x0A))
        \<and> hasPrefix ''fatal: commit-graph requires overflow generation data but has none'' suf)"
  by (auto simp: commitGraphCorruptionRegex_def)


text \<open>
  C6. The heuristic classifies the stderr text \<^verbatim>\<open>error: Could not read abc123\<close> as
  corruption and \<^verbatim>\<open>fatal: unknown flag\<close> as none. It answers true exactly when one of
  the two patterns matches: the object and packfile pattern matches exactly the texts
  with a line that begins with \<^verbatim>\<open>error: Could not read \<close> or \<^verbatim>\<open>error: packfile \<close>,
  the commit-graph pattern exactly the texts with a line that begins with the
  overflow-data message.
\<close>

theorem C6_corruption_heuristic:
  "stdErrIndicatesCorruption ''error: Could not read abc123''
   \<and> \<not> stdErrIndicatesCorruption ''fatal: unknown flag''
   \<and> stdErrIndicatesCorruption s
       = (MatchString objectOrPackFileCorruptionRegex s \<or> MatchString commitGraphCorruptionRegex s)
   \<and> MatchString objectOrPackFileCorruptionRegex s
       = (\<exists>pre suf. s = pre @ suf \<and> lineStart pre
            \<and> (hasPrefix ''error: Could not read '' suf \<or> hasPrefix ''error: packfile '' suf))
   \<and> MatchString commitGraphCorruptionRegex s
       = (\<exists>pre suf. s = pre @ suf \<and> lineStart pre
            \<and> hasPrefix ''fatal: commit-graph requires overflow generation data but has none'' suf)"
proof -
  have yes: "stdErrIndicatesCorruption ''error: Could not read abc123''"
    by (simp add: stdErrIndicatesCorruption_def MatchString_def
        objectOrPackFileCorruptionRegex_def)
  have no: "\<not> stdErrIndicatesCorruption ''fatal: unknown flag''"
    by (simp add: stdErrIndicatesCorruption_def MatchString_def
        objectOrPackFileCorruptionRegex_def commitGraphCorruptionRegex_def)
  have either: "stdErrIndicatesCorruption s
      = (MatchString objectOrPackFileCorruptionRegex s \<or> MatchString commitGraphCorruptionRegex s)"
    by (simp add: stdErrIndicatesCorruption_def)
  have start: "((if pre = [] then None else Some (last pre)) = None
        \<or> (if pre = [] then None else Some (last pre)) = Some (CHR 0x0A)) = lineStart pre"
    for pre :: string
    by (simp add: lineStart_def)
  have pack: "MatchString objectOrPackFileCorruptionRegex s
      = (\<exists>pre suf. s = pre @ suf \<and> lineStart pre
           \<and> (hasPrefix ''error: Could not read '' suf \<or> hasPrefix ''error: packfile '' suf))"
    unfolding MatchString_iff step_objectOrPackFile start by (rule refl)
  have graph: "MatchString commitGraphCorruptionRegex s
      = (\<exists>pre suf. s = pre @ suf \<and> lineStart pre
           \<and> hasPrefix ''fatal: commit-graph requires overflow generation data but has none'' suf)"
    unfolding MatchString_iff step_commitGraph start by (rule refl)
  from yes no either pack graph show ?thesis
    by blast
qed

theorem C6_corruption_heuristic_witness:
  "stdErrIndicatesCorruption
     (''warning: slow'' @ [CHR 0x0A] @ ''error: packfile p.pack cannot be accessed'')
   \<and> \<not> stdErrIndicatesCorruption ''git: error: packfile p.pack cannot be accessed''"
proof -
  let ?pre = "''warning: slow'' @ [CHR 0x0A]"
  let ?suf = "''error: packfile p.pack cannot be accessed''"
  have "?pre @ ?suf = ?pre @ ?suf \<and> lineStart ?pre
      \<and> (hasPrefix ''error: Could not read '' ?suf \<or> hasPrefix ''error: packfile '' ?suf)"
    by (simp add: lineStart_def)
  then have "\<exists>pre suf. ?pre @ ?suf = pre @ suf \<and> lineStart pre
      \<and> (hasPrefix ''error: Could not read '' suf \<or> hasPrefix ''error: packfile '' suf)"
    by blast
  with C6_corruption_heuristic [of "?pre @ ?suf"]
  have pos: "stdErrIndicatesCorruption (?pre @ ?suf)"
    by blast
  have neg: "\<not> stdErrIndicatesCorruption ''git: error: packfile p.pack cannot be accessed''"
    by (simp add: stdErrIndicatesCorruption_def MatchString_def
        objectOrPackFileCorruptionRegex_def commitGraphCorruptionRegex_def)
  from pos neg show ?thesis
    by simp
qed

section \<open>Properties of the resource accounting and of the sampling\<close>

lemma sint_times_KiB:
  fixes rss :: "64 word"
  assumes "- (2 ^ 53) \<le> sint rss" and "sint rss < 2 ^ 53"
  shows "sint (rss * 1024) = sint rss * 1024"
proof -
  have "sint (rss * 1024) = signed_take_bit 63 (sint rss * 1024)"
    by (simp add: sint_word_ariths)
  also have "\<dots> = sint rss * 1024"
    using assms by (intro signed_take_bit_int_eq_self) simp_all
  finally show ?thesis .
qed

text \<open>
  C9. The normalisation of the peak resident memory gives bytes: on darwin the raw
  value is returned as it is, on every other platform it is multiplied by 1024, in
  64-bit arithmetic; for a raw value below \<open>2 ^ 53\<close> in magnitude the product is the one
  of the integers. This is the value \<open>trace\<close> computes before it emits anything, from the
  raw value of the resource usage or from 0 when the process state has none.
\<close>

theorem C9_rss_to_bytes:
  "rssToByteSize ''darwin'' rss = rss
   \<and> (goos \<noteq> ''darwin'' \<longrightarrow> rssToByteSize goos rss = rss * 1024)
   \<and> (goos \<noteq> ''darwin'' \<and> - (2 ^ 53) \<le> sint rss \<and> sint rss < 2 ^ 53 \<longrightarrow>
        sint (rssToByteSize goos rss) = sint rss * 1024)
   \<and> memUsage goos (Some rss) = rssToByteSize goos rss
   \<and> memUsage goos None = 0"
  by (simp add: rssToByteSize_def bytesize_B_def bytesize_KiB_def memUsage_def sint_times_KiB)

theorem C9_rss_to_bytes_witness:
  "rssToByteSize ''linux'' 2048 = 2097152 \<and> rssToByteSize ''darwin'' 2097152 = 2097152
   \<and> sint (rssToByteSize ''linux'' 2048) = 2097152"
proof -
  have h: "''linux'' \<noteq> ''darwin''" by simp
  have r: "- (2 ^ 53) \<le> sint (2048 :: 64 word) \<and> sint (2048 :: 64 word) < 2 ^ 53" by simp
  from C9_rss_to_bytes [of 2048 "''linux''"] h r
  have a: "rssToByteSize ''linux'' 2048 = 2048 * 1024"
    and b: "sint (rssToByteSize ''linux'' 2048) = sint (2048 :: 64 word) * 1024"
    by blast+
  from C9_rss_to_bytes [of 2097152 "''linux''"]
  have c: "rssToByteSize ''darwin'' 2097152 = 2097152"
    by blast
  from a b c show ?thesis by simp
qed

text \<open>
  C10. For an actor that is internal or has the UID 0, marked internal or not, the
  sample rate is 16384 for the subcommands \<^verbatim>\<open>rev-parse\<close>, \<^verbatim>\<open>rev-list\<close> and
  \<^verbatim>\<open>config\<close> and 16 for every other one; for every other actor it is 8. So for
  every subcommand the rate of an internal actor is at least the rate of an external one.
\<close>

theorem C10_sample_rate:
  "HoneySampleRate cmd (Some a)
     = Some (if IsInternal a \<or> UID a = 0
             then (if cmd = ''rev-parse'' \<or> cmd = ''rev-list'' \<or> cmd = ''config''
                   then 16384 else 16)
             else 8)
   \<and> (UID a = 0 \<longrightarrow>
        HoneySampleRate cmd (Some a) = HoneySampleRate cmd (Some (a\<lparr>IsInternal := True\<rparr>)))
   \<and> ((IsInternal i \<or> UID i = 0) \<and> \<not> IsInternal x \<and> UID x \<noteq> 0 \<longrightarrow>
        (\<exists>ri rx. HoneySampleRate cmd (Some i) = Some ri
                \<and> HoneySampleRate cmd (Some x) = Some rx \<and> rx = 8 \<and> rx \<le> ri))"
  by (simp add: HoneySampleRate_def Let_def)

theorem C10_sample_rate_witness:
  "HoneySampleRate ''rev-parse'' (Some \<lparr>UID = 0, IsInternal = False\<rparr>) = Some 16384
   \<and> HoneySampleRate ''log'' (Some \<lparr>UID = 0, IsInternal = False\<rparr>) = Some 16
   \<and> HoneySampleRate ''rev-parse'' (Some \<lparr>UID = 7, IsInternal = False\<rparr>) = Some 8
   \<and> HoneySampleRate ''log'' (Some \<lparr>UID = 0, IsInternal = False\<rparr>)
     = HoneySampleRate ''log'' (Some \<lparr>UID = 0, IsInternal = True\<rparr>)"
proof -
  let ?i = "\<lparr>UID = 0, IsInternal = False\<rparr>"
  let ?x = "\<lparr>UID = 7, IsInternal = False\<rparr>"
  have hi: "(IsInternal ?i \<or> UID ?i = 0) \<and> \<not> IsInternal ?x \<and> UID ?x \<noteq> 0"
    by simp
  have zero: "UID ?i = 0"
    by simp
  from C10_sample_rate [of "''rev-parse''" ?i ?i ?x] hi
  have a: "HoneySampleRate ''rev-parse'' (Some ?i) = Some 16384"
    and c: "HoneySampleRate ''rev-parse'' (Some ?x) = Some 8"
    by auto
  from C10_sample_rate [of "''log''" ?i ?i ?x]
  have b: "HoneySampleRate ''log'' (Some ?i) = Some 16"
    by simp
  from C10_sample_rate [of "''log''" ?i ?i ?x] zero
  have d: "HoneySampleRate ''log'' (Some ?i) = HoneySampleRate ''log'' (Some (?i\<lparr>IsInternal := True\<rparr>))"
    by blast
  from a b c d show ?thesis by simp
qed

section \<open>Properties of the streaming result reader\<close>

lemma checkMaybeCorruptRepo_fst:
  "fst (checkMaybeCorruptRepo setErr now stderr rc) = stdErrIndicatesCorruption stderr"
  by (simp add: checkMaybeCorruptRepo_def Let_def)

lemma checkMaybeCorruptRepo_fields:
  "err (snd (checkMaybeCorruptRepo setErr now stderr rc)) = err rc
   \<and> cmdArgs (snd (checkMaybeCorruptRepo setErr now stderr rc)) = cmdArgs rc
   \<and> waitOnce (snd (checkMaybeCorruptRepo setErr now stderr rc)) = waitOnce rc
   \<and> waitCalls (snd (checkMaybeCorruptRepo setErr now stderr rc)) = waitCalls rc"
  by (simp add: checkMaybeCorruptRepo_def Let_def split: option.splits)

lemma checkMaybeCorruptRepo_configSets:
  "configSets (snd (checkMaybeCorruptRepo setErr now stderr rc))
     = configSets rc @
       (if stdErrIndicatesCorruption stderr then [(Background, gitConfigMaybeCorrupt, now)] else [])"
  by (simp add: checkMaybeCorruptRepo_def Let_def split: option.splits)

lemma waitBody_err:
  "err (waitBody px rc)
     = (case waitErr px of
          None \<Rightarrow> None
        | Some er \<Rightarrow>
            Some (if stdErrIndicatesCorruption (capturedStderr px)
                  then ErrRepoCorrupted (capturedStderr px)
                  else commandFailedError (ctxErr px) er (cmdArgs rc) (exitCode px)
                         (capturedStderr px)))"
proof (cases "waitErr px")
  case None
  then show ?thesis by (simp add: waitBody_def Let_def)
next
  case (Some er)
  obtain b rc' where c: "checkMaybeCorruptRepo (configSetErr px) (unixNow px) (capturedStderr px)
      (rc\<lparr>err := Some er, waitCalls := waitCalls rc + 1\<rparr>) = (b, rc')"
    by (cases "checkMaybeCorruptRepo (configSetErr px) (unixNow px) (capturedStderr px)
      (rc\<lparr>err := Some er, waitCalls := waitCalls rc + 1\<rparr>)")
  from checkMaybeCorruptRepo_fst [of "configSetErr px" "unixNow px" "capturedStderr px"
      "rc\<lparr>err := Some er, waitCalls := waitCalls rc + 1\<rparr>"] c
  have b: "b = stdErrIndicatesCorruption (capturedStderr px)" by simp
  from checkMaybeCorruptRepo_fields [of "configSetErr px" "unixNow px" "capturedStderr px"
      "rc\<lparr>err := Some er, waitCalls := waitCalls rc + 1\<rparr>"] c
  have a: "cmdArgs rc' = cmdArgs rc" by simp
  from Some c a b show ?thesis
    by (simp add: waitBody_def Let_def)
qed

lemma waitBody_waitCalls: "waitCalls (waitBody px rc) = waitCalls rc + 1"
proof (cases "waitErr px")
  case None
  then show ?thesis by (simp add: waitBody_def Let_def)
next
  case (Some er)
  obtain b rc' where c: "checkMaybeCorruptRepo (configSetErr px) (unixNow px) (capturedStderr px)
      (rc\<lparr>err := Some er, waitCalls := waitCalls rc + 1\<rparr>) = (b, rc')"
    by (cases "checkMaybeCorruptRepo (configSetErr px) (unixNow px) (capturedStderr px)
      (rc\<lparr>err := Some er, waitCalls := waitCalls rc + 1\<rparr>)")
  from checkMaybeCorruptRepo_fields [of "configSetErr px" "unixNow px" "capturedStderr px"
      "rc\<lparr>err := Some er, waitCalls := waitCalls rc + 1\<rparr>"] c
  have a: "waitCalls rc' = waitCalls rc + 1" by simp
  from Some c a show ?thesis
    by (cases b) (simp_all add: waitBody_def Let_def)
qed

lemma waitBody_configSets:
  "configSets (waitBody px rc)
     = configSets rc @
       (if waitErr px \<noteq> None \<and> stdErrIndicatesCorruption (capturedStderr px)
        then [(Background, gitConfigMaybeCorrupt, unixNow px)] else [])"
proof (cases "waitErr px")
  case None
  then show ?thesis by (simp add: waitBody_def Let_def)
next
  case (Some er)
  obtain b rc' where c: "checkMaybeCorruptRepo (configSetErr px) (unixNow px) (capturedStderr px)
      (rc\<lparr>err := Some er, waitCalls := waitCalls rc + 1\<rparr>) = (b, rc')"
    by (cases "checkMaybeCorruptRepo (configSetErr px) (unixNow px) (capturedStderr px)
      (rc\<lparr>err := Some er, waitCalls := waitCalls rc + 1\<rparr>)")
  from checkMaybeCorruptRepo_configSets [of "configSetErr px" "unixNow px" "capturedStderr px"
      "rc\<lparr>err := Some er, waitCalls := waitCalls rc + 1\<rparr>"] c
  have a: "configSets rc' = configSets rc @
       (if stdErrIndicatesCorruption (capturedStderr px)
        then [(Background, gitConfigMaybeCorrupt, unixNow px)] else [])" by simp
  from Some c a show ?thesis
    by (cases b) (simp_all add: waitBody_def Let_def)
qed

lemma waitCmd_done: "waitOnce rc \<Longrightarrow> waitCmd px rc = (err rc, rc)"
  by (simp add: waitCmd_def)

lemma waitCmd_first:
  "\<not> waitOnce rc \<Longrightarrow>
     waitCmd px rc = (err (waitBody px rc), (waitBody px rc)\<lparr>waitOnce := True\<rparr>)"
  by (simp add: waitCmd_def Let_def)

text \<open>
  Cancellation does not take priority over the corruption classification: \<open>waitCmd\<close>
  asks \<open>checkMaybeCorruptRepo\<close> first and reads the context only in
  \<open>commandFailedError\<close>. A process that exits with 128 and the stderr
  \<^verbatim>\<open>error: Could not read abc123\<close>, waited for under a cancelled context, gives the
  corruption signal and not the cancellation error.
\<close>

theorem C1_cancellation_counterexample:
  "fst (waitCmd
      \<lparr>waitErr = Some (ExitError 128), exitCode = 128,
        stderrWrites = [''error: Could not read abc123''], ctxErr = Some ContextCanceled,
        configSetErr = None, unixNow = 0\<rparr>
      (newReader \<lparr>hasDeadline = False, stdoutPipeErr = None, startErr = None\<rparr>
         ''log'' [''log'', ''HEAD'']))
     = Some (ErrRepoCorrupted ''error: Could not read abc123'')
   \<and> fst (waitCmd
      \<lparr>waitErr = Some (ExitError 128), exitCode = 128,
        stderrWrites = [''error: Could not read abc123''], ctxErr = Some ContextCanceled,
        configSetErr = None, unixNow = 0\<rparr>
      (newReader \<lparr>hasDeadline = False, stdoutPipeErr = None, startErr = None\<rparr>
         ''log'' [''log'', ''HEAD'']))
     \<noteq> Some ContextCanceled"
proof -
  let ?px = "\<lparr>waitErr = Some (ExitError 128), exitCode = 128,
        stderrWrites = [''error: Could not read abc123''], ctxErr = Some ContextCanceled,
        configSetErr = None, unixNow = 0\<rparr>"
  have cap: "capturedStderr ?px = ''error: Could not read abc123''"
    by (simp add: capturedStderr_def stderrBuffer_def maxStderrCapture_def Write_def
        bufferWrite_def Let_def)
  have bad: "stdErrIndicatesCorruption ''error: Could not read abc123''"
    by (simp add: stdErrIndicatesCorruption_def MatchString_def
        objectOrPackFileCorruptionRegex_def)
  show ?thesis
    by (simp add: waitCmd_first newReader_def waitBody_err cap bad)
qed

text \<open>
  C1, amended. When the process-wait error is not nil and the context is already
  cancelled at the wait step, the outcome is the cancellation error if the captured
  stderr matches no corruption pattern: cancellation takes priority over the generic
  \<open>CommandFailedError\<close>. If the captured stderr matches a corruption pattern, the
  outcome is the corruption signal, cancelled or not. With neither, the outcome is the
  \<open>CommandFailedError\<close> with the captured stderr, the exit code, the wait error and the
  arguments.
\<close>

theorem C1_cancellation_amended:
  "(\<not> waitOnce rc \<and> waitErr px = Some er \<and> ctxErr px = Some ce
      \<and> \<not> stdErrIndicatesCorruption (capturedStderr px) \<longrightarrow>
        fst (waitCmd px rc) = Some ce)
   \<and> (\<not> waitOnce rc \<and> waitErr px = Some er
      \<and> stdErrIndicatesCorruption (capturedStderr px) \<longrightarrow>
        fst (waitCmd px rc) = Some (ErrRepoCorrupted (capturedStderr px)))
   \<and> (\<not> waitOnce rc \<and> waitErr px = Some er \<and> ctxErr px = None
      \<and> \<not> stdErrIndicatesCorruption (capturedStderr px) \<longrightarrow>
        fst (waitCmd px rc)
          = Some (CommandFailedError (capturedStderr px) (exitCode px) er (cmdArgs rc)))"
  by (simp add: waitCmd_first waitBody_err commandFailedError_def)

theorem C1_cancellation_amended_witness:
  "fst (waitCmd
      \<lparr>waitErr = Some (ExitError 1), exitCode = 1,
        stderrWrites = [''fatal: '', ''unknown flag''], ctxErr = Some DeadlineExceeded,
        configSetErr = None, unixNow = 0\<rparr>
      (newReader \<lparr>hasDeadline = False, stdoutPipeErr = None, startErr = None\<rparr>
         ''log'' [''log'', ''HEAD'']))
     = Some DeadlineExceeded
   \<and> fst (waitCmd
      \<lparr>waitErr = Some (ExitError 1), exitCode = 1,
        stderrWrites = [''fatal: '', ''unknown flag''], ctxErr = None,
        configSetErr = None, unixNow = 0\<rparr>
      (newReader \<lparr>hasDeadline = False, stdoutPipeErr = None, startErr = None\<rparr>
         ''log'' [''log'', ''HEAD'']))
     = Some (CommandFailedError ''fatal: unknown flag'' 1 (ExitError 1)
               [''git'', ''log'', ''HEAD''])
   \<and> fst (waitCmd
      \<lparr>waitErr = Some (ExitError 128), exitCode = 128,
        stderrWrites = [''error: packfile p is bad''], ctxErr = Some DeadlineExceeded,
        configSetErr = None, unixNow = 0\<rparr>
      (newReader \<lparr>hasDeadline = False, stdoutPipeErr = None, startErr = None\<rparr>
         ''log'' [''log'', ''HEAD'']))
     = Some (ErrRepoCorrupted ''error: packfile p is bad'')"
proof -
  let ?px = "\<lparr>waitErr = Some (ExitError 1), exitCode = 1,
        stderrWrites = [''fatal: '', ''unknown flag''], ctxErr = Some DeadlineExceeded,
        configSetErr = None, unixNow = 0\<rparr>"
  let ?py = "\<lparr>waitErr = Some (ExitError 1), exitCode = 1,
        stderrWrites = [''fatal: '', ''unknown flag''], ctxErr = None,
        configSetErr = None, unixNow = 0\<rparr>"
  let ?pz = "\<lparr>waitErr = Some (ExitError 128), exitCode = 128,
        stderrWrites = [''error: packfile p is bad''], ctxErr = Some DeadlineExceeded,
        configSetErr = None, unixNow = 0\<rparr>"
  let ?rc = "newReader \<lparr>hasDeadline = False, stdoutPipeErr = None, startErr = None\<rparr>
         ''log'' [''log'', ''HEAD'']"
  have cap: "capturedStderr ?px = ''fatal: unknown flag''"
    "capturedStderr ?py = ''fatal: unknown flag''"
    "capturedStderr ?pz = ''error: packfile p is bad''"
    by (simp_all add: capturedStderr_def stderrBuffer_def maxStderrCapture_def Write_def
        bufferWrite_def Let_def)
  have good: "\<not> stdErrIndicatesCorruption ''fatal: unknown flag''"
    by (simp add: stdErrIndicatesCorruption_def MatchString_def
        objectOrPackFileCorruptionRegex_def commitGraphCorruptionRegex_def)
  have bad: "stdErrIndicatesCorruption ''error: packfile p is bad''"
    by (simp add: stdErrIndicatesCorruption_def MatchString_def
        objectOrPackFileCorruptionRegex_def)
  have h1: "\<not> waitOnce ?rc \<and> waitErr ?px = Some (ExitError 1) \<and> ctxErr ?px = Some DeadlineExceeded
      \<and> \<not> stdErrIndicatesCorruption (capturedStderr ?px)"
    by (simp add: newReader_def cap good)
  have h2: "\<not> waitOnce ?rc \<and> waitErr ?pz = Some (ExitError 128)
      \<and> stdErrIndicatesCorruption (capturedStderr ?pz)"
    by (simp add: newReader_def cap bad)
  have h3: "\<not> waitOnce ?rc \<and> waitErr ?py = Some (ExitError 1) \<and> ctxErr ?py = None
      \<and> \<not> stdErrIndicatesCorruption (capturedStderr ?py)"
    by (simp add: newReader_def cap good)
  from C1_cancellation_amended [of ?rc ?px "ExitError 1" DeadlineExceeded] h1
  have a: "fst (waitCmd ?px ?rc) = Some DeadlineExceeded"
    by blast
  from C1_cancellation_amended [of ?rc ?py "ExitError 1" DeadlineExceeded] h3
  have "fst (waitCmd ?py ?rc)
      = Some (CommandFailedError (capturedStderr ?py) (exitCode ?py) (ExitError 1) (cmdArgs ?rc))"
    by blast
  then have b: "fst (waitCmd ?py ?rc)
      = Some (CommandFailedError ''fatal: unknown flag'' 1 (ExitError 1)
               [''git'', ''log'', ''HEAD''])"
    by (simp add: cap newReader_def)
  from C1_cancellation_amended [of ?rc ?pz "ExitError 128" DeadlineExceeded] h2
  have "fst (waitCmd ?pz ?rc) = Some (ErrRepoCorrupted (capturedStderr ?pz))"
    by blast
  then have c: "fst (waitCmd ?pz ?rc) = Some (ErrRepoCorrupted ''error: packfile p is bad'')"
    by (simp add: cap)
  from a b c show ?thesis
    by blast
qed

text \<open>
  C8. For every stderr text that matches a corruption pattern,
  \<open>checkMaybeCorruptRepo\<close> reports the match whatever the marker write returns, writes
  the marker under the background context and not under the caller's, leaves the
  memoized error alone, and only logs a failure of the write. So the wait step of a
  failed process with such a stderr returns the corruption signal, the same for every
  result of the marker write and for every state of the caller's context, and has
  attempted the write exactly once.
\<close>

theorem C8_marker_write:
  "(stdErrIndicatesCorruption stderr \<longrightarrow>
      fst (checkMaybeCorruptRepo setErr now stderr rc) = True
      \<and> configSets (snd (checkMaybeCorruptRepo setErr now stderr rc))
          = configSets rc @ [(Background, gitConfigMaybeCorrupt, now)]
      \<and> err (snd (checkMaybeCorruptRepo setErr now stderr rc)) = err rc
      \<and> logs (snd (checkMaybeCorruptRepo (Some e) now stderr rc))
          = logs rc @
            [Warn ''marking repo for re-cloning due to stderr output indicating repo corruption'',
             Error ''failed to set maybeCorruptRepo config'' e])
   \<and> (\<not> waitOnce rc \<and> waitErr px = Some er
        \<and> stdErrIndicatesCorruption (capturedStderr px) \<longrightarrow>
      fst (waitCmd px rc) = Some (ErrRepoCorrupted (capturedStderr px))
      \<and> fst (waitCmd (px\<lparr>configSetErr := setErr\<rparr>) rc) = fst (waitCmd px rc)
      \<and> fst (waitCmd (px\<lparr>ctxErr := cerr\<rparr>) rc) = fst (waitCmd px rc)
      \<and> configSets (snd (waitCmd px rc))
          = configSets rc @ [(Background, gitConfigMaybeCorrupt, unixNow px)])"
proof (intro conjI impI)
  assume c: "stdErrIndicatesCorruption stderr"
  then show "fst (checkMaybeCorruptRepo setErr now stderr rc) = True"
    by (simp add: checkMaybeCorruptRepo_fst)
  from c show "configSets (snd (checkMaybeCorruptRepo setErr now stderr rc))
      = configSets rc @ [(Background, gitConfigMaybeCorrupt, now)]"
    by (simp add: checkMaybeCorruptRepo_configSets)
  show "err (snd (checkMaybeCorruptRepo setErr now stderr rc)) = err rc"
    by (simp add: checkMaybeCorruptRepo_fields)
  from c show "logs (snd (checkMaybeCorruptRepo (Some e) now stderr rc))
      = logs rc @
        [Warn ''marking repo for re-cloning due to stderr output indicating repo corruption'',
         Error ''failed to set maybeCorruptRepo config'' e]"
    by (simp add: checkMaybeCorruptRepo_def Let_def)
next
  assume h: "\<not> waitOnce rc \<and> waitErr px = Some er
      \<and> stdErrIndicatesCorruption (capturedStderr px)"
  have cap1: "capturedStderr (px\<lparr>configSetErr := setErr\<rparr>) = capturedStderr px"
    and cap2: "capturedStderr (px\<lparr>ctxErr := cerr\<rparr>) = capturedStderr px"
    by (simp_all add: capturedStderr_def)
  from h show out: "fst (waitCmd px rc) = Some (ErrRepoCorrupted (capturedStderr px))"
    by (simp add: waitCmd_first waitBody_err)
  from h show "fst (waitCmd (px\<lparr>configSetErr := setErr\<rparr>) rc) = fst (waitCmd px rc)"
    by (simp add: waitCmd_first waitBody_err cap1)
  from h show "fst (waitCmd (px\<lparr>ctxErr := cerr\<rparr>) rc) = fst (waitCmd px rc)"
    by (simp add: waitCmd_first waitBody_err cap2)
  from h show "configSets (snd (waitCmd px rc))
      = configSets rc @ [(Background, gitConfigMaybeCorrupt, unixNow px)]"
    by (simp add: waitCmd_first waitBody_configSets)
qed

theorem C8_marker_write_witness:
  "fst (waitCmd
      \<lparr>waitErr = Some (ExitError 128), exitCode = 128,
        stderrWrites = [''error: packfile x.pack is damaged''], ctxErr = Some ContextCanceled,
        configSetErr = Some (OSError ''could not lock config file''), unixNow = 1700000000\<rparr>
      (newReader \<lparr>hasDeadline = True, stdoutPipeErr = None, startErr = None\<rparr>
         ''show'' [''show'', ''HEAD'']))
     = Some (ErrRepoCorrupted ''error: packfile x.pack is damaged'')
   \<and> configSets (snd (waitCmd
      \<lparr>waitErr = Some (ExitError 128), exitCode = 128,
        stderrWrites = [''error: packfile x.pack is damaged''], ctxErr = Some ContextCanceled,
        configSetErr = Some (OSError ''could not lock config file''), unixNow = 1700000000\<rparr>
      (newReader \<lparr>hasDeadline = True, stdoutPipeErr = None, startErr = None\<rparr>
         ''show'' [''show'', ''HEAD''])))
     = [(Background, ''sourcegraph.maybeCorruptRepo'', 1700000000)]
   \<and> fst (checkMaybeCorruptRepo (Some (OSError ''could not lock config file'')) 1700000000
        ''error: packfile x.pack is damaged''
        (newReader \<lparr>hasDeadline = True, stdoutPipeErr = None, startErr = None\<rparr>
           ''show'' [''show'', ''HEAD'']))"
proof -
  let ?px = "\<lparr>waitErr = Some (ExitError 128), exitCode = 128,
        stderrWrites = [''error: packfile x.pack is damaged''], ctxErr = Some ContextCanceled,
        configSetErr = Some (OSError ''could not lock config file''), unixNow = 1700000000\<rparr>"
  let ?rc = "newReader \<lparr>hasDeadline = True, stdoutPipeErr = None, startErr = None\<rparr>
         ''show'' [''show'', ''HEAD'']"
  have cap: "capturedStderr ?px = ''error: packfile x.pack is damaged''"
    by (simp add: capturedStderr_def stderrBuffer_def maxStderrCapture_def Write_def
        bufferWrite_def Let_def)
  have bad: "stdErrIndicatesCorruption ''error: packfile x.pack is damaged''"
    by (simp add: stdErrIndicatesCorruption_def MatchString_def
        objectOrPackFileCorruptionRegex_def)
  have h: "\<not> waitOnce ?rc \<and> waitErr ?px = Some (ExitError 128)
      \<and> stdErrIndicatesCorruption (capturedStderr ?px)"
    by (simp add: newReader_def cap bad)
  note c8 = C8_marker_write [of "''error: packfile x.pack is damaged''"
      "Some (OSError ''could not lock config file'')" 1700000000 ?rc EOF ?px "ExitError 128" None]
  from c8 h
  have "fst (waitCmd ?px ?rc) = Some (ErrRepoCorrupted (capturedStderr ?px))"
    and "configSets (snd (waitCmd ?px ?rc))
      = configSets ?rc @ [(Background, gitConfigMaybeCorrupt, unixNow ?px)]"
    by blast+
  then have a: "fst (waitCmd ?px ?rc) = Some (ErrRepoCorrupted ''error: packfile x.pack is damaged'')"
    and b: "configSets (snd (waitCmd ?px ?rc))
      = [(Background, ''sourcegraph.maybeCorruptRepo'', 1700000000)]"
    by (simp_all add: cap newReader_def gitConfigMaybeCorrupt_def)
  from c8 bad
  have c: "fst (checkMaybeCorruptRepo (Some (OSError ''could not lock config file'')) 1700000000
        ''error: packfile x.pack is damaged'' ?rc)"
    by blast
  from a b c show ?thesis
    by blast
qed

lemma chain_self: "x \<in> set (chain x)"
  by (cases x) simp_all

text \<open>
  Not every outcome of the wait step wraps the process-wait error. A process that exits
  with 2 under a cancelled context, its stderr matching no corruption pattern, gives
  the error of the context, which has no cause to unwrap: the exit error is not in its
  chain.
\<close>

theorem C5_cause_counterexample:
  "fst (waitCmd
      \<lparr>waitErr = Some (ExitError 2), exitCode = 2,
        stderrWrites = [''fatal: bad revision''], ctxErr = Some ContextCanceled,
        configSetErr = None, unixNow = 0\<rparr>
      (newReader \<lparr>hasDeadline = True, stdoutPipeErr = None, startErr = None\<rparr>
         ''rev-parse'' [''rev-parse'', ''HEAD'']))
     = Some ContextCanceled
   \<and> Unwrap ContextCanceled = None
   \<and> ExitError 2 \<notin> set (chain ContextCanceled)"
proof -
  let ?px = "\<lparr>waitErr = Some (ExitError 2), exitCode = 2,
        stderrWrites = [''fatal: bad revision''], ctxErr = Some ContextCanceled,
        configSetErr = None, unixNow = 0\<rparr>"
  have cap: "capturedStderr ?px = ''fatal: bad revision''"
    by (simp add: capturedStderr_def stderrBuffer_def maxStderrCapture_def Write_def
        bufferWrite_def Let_def)
  have good: "\<not> stdErrIndicatesCorruption ''fatal: bad revision''"
    by (simp add: stdErrIndicatesCorruption_def MatchString_def
        objectOrPackFileCorruptionRegex_def commitGraphCorruptionRegex_def)
  show ?thesis
    by (simp add: waitCmd_first newReader_def waitBody_err cap good commandFailedError_def)
qed

text \<open>
  C5, amended. The generic \<open>CommandFailedError\<close> wraps the process-wait error, and a
  launch error (the stdout pipe, the start of the process) wraps the error of the
  operating system: unwrapping gives the cause back. The corruption signal carries the
  captured stderr as its reason and no cause, and the cancellation outcome is the error
  of the context itself.
\<close>

theorem C5_cause_amended:
  "(\<not> waitOnce rc \<and> waitErr px = Some er \<and> ctxErr px = None
      \<and> \<not> stdErrIndicatesCorruption (capturedStderr px) \<longrightarrow>
        (\<exists>x. fst (waitCmd px rc) = Some x \<and> Unwrap x = Some er \<and> er \<in> set (chain x)))
   \<and> (argsFromArguments chk sub (arguments opts) = Inr args \<and> stdoutPipeErr e = Some er \<longrightarrow>
        (\<exists>x. fst (NewCommand chk e sub opts w) = Inl x \<and> Unwrap x = Some er
             \<and> er \<in> set (chain x)))
   \<and> (argsFromArguments chk sub (arguments opts) = Inr args \<and> stdoutPipeErr e = None
      \<and> startErr e = Some er \<longrightarrow>
        (\<exists>x. fst (NewCommand chk e sub opts w) = Inl x \<and> Unwrap x = Some er
             \<and> er \<in> set (chain x)))
   \<and> (\<not> waitOnce rc \<and> waitErr px = Some er
      \<and> stdErrIndicatesCorruption (capturedStderr px) \<longrightarrow>
        fst (waitCmd px rc) = Some (ErrRepoCorrupted (capturedStderr px))
        \<and> Unwrap (ErrRepoCorrupted (capturedStderr px)) = None)
   \<and> (\<not> waitOnce rc \<and> waitErr px = Some er \<and> ctxErr px = Some ce
      \<and> \<not> stdErrIndicatesCorruption (capturedStderr px) \<longrightarrow>
        fst (waitCmd px rc) = Some ce)"
proof (intro conjI impI)
  assume "\<not> waitOnce rc \<and> waitErr px = Some er \<and> ctxErr px = None
      \<and> \<not> stdErrIndicatesCorruption (capturedStderr px)"
  then have "fst (waitCmd px rc)
      = Some (CommandFailedError (capturedStderr px) (exitCode px) er (cmdArgs rc))"
    by (simp add: waitCmd_first waitBody_err commandFailedError_def)
  then show "\<exists>x. fst (waitCmd px rc) = Some x \<and> Unwrap x = Some er \<and> er \<in> set (chain x)"
    by (simp add: chain_self)
next
  assume "argsFromArguments chk sub (arguments opts) = Inr args \<and> stdoutPipeErr e = Some er"
  then have "fst (NewCommand chk e sub opts w) = Inl (Wrapped er ''failed to create stdout pipe'')"
    by (simp add: NewCommand_def)
  then show "\<exists>x. fst (NewCommand chk e sub opts w) = Inl x \<and> Unwrap x = Some er
      \<and> er \<in> set (chain x)"
    by (simp add: chain_self)
next
  assume "argsFromArguments chk sub (arguments opts) = Inr args \<and> stdoutPipeErr e = None
      \<and> startErr e = Some er"
  then have "fst (NewCommand chk e sub opts w) = Inl (Wrapped er ''failed to start git process'')"
    by (simp add: NewCommand_def Let_def)
  then show "\<exists>x. fst (NewCommand chk e sub opts w) = Inl x \<and> Unwrap x = Some er
      \<and> er \<in> set (chain x)"
    by (simp add: chain_self)
next
  assume h: "\<not> waitOnce rc \<and> waitErr px = Some er
      \<and> stdErrIndicatesCorruption (capturedStderr px)"
  then show "fst (waitCmd px rc) = Some (ErrRepoCorrupted (capturedStderr px))"
    by (simp add: waitCmd_first waitBody_err)
  show "Unwrap (ErrRepoCorrupted (capturedStderr px)) = None"
    by simp
next
  assume "\<not> waitOnce rc \<and> waitErr px = Some er \<and> ctxErr px = Some ce
      \<and> \<not> stdErrIndicatesCorruption (capturedStderr px)"
  then show "fst (waitCmd px rc) = Some ce"
    by (simp add: waitCmd_first waitBody_err commandFailedError_def)
qed

theorem C5_cause_amended_witness:
  "(\<exists>x. fst (waitCmd
      \<lparr>waitErr = Some (ExitError 2), exitCode = 2,
        stderrWrites = [''fatal: bad revision''], ctxErr = None,
        configSetErr = None, unixNow = 0\<rparr>
      (newReader \<lparr>hasDeadline = True, stdoutPipeErr = None, startErr = None\<rparr>
         ''rev-parse'' [''rev-parse'', ''HEAD''])) = Some x \<and> Unwrap x = Some (ExitError 2))
   \<and> (\<exists>x. fst (NewCommand checkSpecArgSafety
        \<lparr>hasDeadline = True, stdoutPipeErr = None, startErr = Some (OSError ''no such file'')\<rparr>
        ''rev-parse'' \<lparr>arguments = [SpecSafeValueArgument ''HEAD''], env = [], stdin = None\<rparr>
        \<lparr>startCalls = [], execRunning = (\<lambda>c. 0)\<rparr>) = Inl x
      \<and> Unwrap x = Some (OSError ''no such file''))
   \<and> (\<exists>x. fst (NewCommand checkSpecArgSafety
        \<lparr>hasDeadline = True, stdoutPipeErr = Some (OSError ''too many open files''),
          startErr = None\<rparr>
        ''rev-parse'' \<lparr>arguments = [SpecSafeValueArgument ''HEAD''], env = [], stdin = None\<rparr>
        \<lparr>startCalls = [], execRunning = (\<lambda>c. 0)\<rparr>) = Inl x
      \<and> Unwrap x = Some (OSError ''too many open files''))
   \<and> fst (waitCmd
      \<lparr>waitErr = Some (ExitError 128), exitCode = 128,
        stderrWrites = [''error: packfile p is bad''], ctxErr = None,
        configSetErr = None, unixNow = 0\<rparr>
      (newReader \<lparr>hasDeadline = True, stdoutPipeErr = None, startErr = None\<rparr>
         ''rev-parse'' [''rev-parse'', ''HEAD'']))
     = Some (ErrRepoCorrupted ''error: packfile p is bad'')
   \<and> fst (waitCmd
      \<lparr>waitErr = Some (ExitError 2), exitCode = 2,
        stderrWrites = [''fatal: bad revision''], ctxErr = Some DeadlineExceeded,
        configSetErr = None, unixNow = 0\<rparr>
      (newReader \<lparr>hasDeadline = True, stdoutPipeErr = None, startErr = None\<rparr>
         ''rev-parse'' [''rev-parse'', ''HEAD'']))
     = Some DeadlineExceeded"
proof -
  let ?px = "\<lparr>waitErr = Some (ExitError 2), exitCode = 2,
        stderrWrites = [''fatal: bad revision''], ctxErr = None,
        configSetErr = None, unixNow = 0\<rparr>"
  let ?py = "\<lparr>waitErr = Some (ExitError 128), exitCode = 128,
        stderrWrites = [''error: packfile p is bad''], ctxErr = None,
        configSetErr = None, unixNow = 0\<rparr>"
  let ?pz = "\<lparr>waitErr = Some (ExitError 2), exitCode = 2,
        stderrWrites = [''fatal: bad revision''], ctxErr = Some DeadlineExceeded,
        configSetErr = None, unixNow = 0\<rparr>"
  let ?e = "\<lparr>hasDeadline = True, stdoutPipeErr = None, startErr = Some (OSError ''no such file'')\<rparr>"
  let ?f = "\<lparr>hasDeadline = True, stdoutPipeErr = Some (OSError ''too many open files''),
          startErr = None\<rparr>"
  let ?rc = "newReader \<lparr>hasDeadline = True, stdoutPipeErr = None, startErr = None\<rparr>
         ''rev-parse'' [''rev-parse'', ''HEAD'']"
  let ?opts = "\<lparr>arguments = [SpecSafeValueArgument ''HEAD''], env = [], stdin = None\<rparr>"
  let ?w = "\<lparr>startCalls = [], execRunning = (\<lambda>c. 0::int)\<rparr>"
  have cap: "capturedStderr ?px = ''fatal: bad revision''"
    "capturedStderr ?py = ''error: packfile p is bad''"
    "capturedStderr ?pz = ''fatal: bad revision''"
    by (simp_all add: capturedStderr_def stderrBuffer_def maxStderrCapture_def Write_def
        bufferWrite_def Let_def)
  have good: "\<not> stdErrIndicatesCorruption ''fatal: bad revision''"
    by (simp add: stdErrIndicatesCorruption_def MatchString_def
        objectOrPackFileCorruptionRegex_def commitGraphCorruptionRegex_def)
  have bad: "stdErrIndicatesCorruption ''error: packfile p is bad''"
    by (simp add: stdErrIndicatesCorruption_def MatchString_def
        objectOrPackFileCorruptionRegex_def)
  have h1: "\<not> waitOnce ?rc \<and> waitErr ?px = Some (ExitError 2) \<and> ctxErr ?px = None
      \<and> \<not> stdErrIndicatesCorruption (capturedStderr ?px)"
    by (simp add: newReader_def cap good)
  have built: "argsFromArguments checkSpecArgSafety ''rev-parse'' (arguments ?opts)
      = Inr [''rev-parse'', ''HEAD'']"
    by (simp add: argsFromArguments_def checkSpecArgSafety_def)
  have h2: "argsFromArguments checkSpecArgSafety ''rev-parse'' (arguments ?opts)
      = Inr [''rev-parse'', ''HEAD''] \<and> stdoutPipeErr ?f = Some (OSError ''too many open files'')"
    using built by simp
  have h3: "argsFromArguments checkSpecArgSafety ''rev-parse'' (arguments ?opts)
      = Inr [''rev-parse'', ''HEAD''] \<and> stdoutPipeErr ?e = None
      \<and> startErr ?e = Some (OSError ''no such file'')"
    using built by simp
  have h4: "\<not> waitOnce ?rc \<and> waitErr ?py = Some (ExitError 128)
      \<and> stdErrIndicatesCorruption (capturedStderr ?py)"
    by (simp add: newReader_def cap bad)
  have h5: "\<not> waitOnce ?rc \<and> waitErr ?pz = Some (ExitError 2) \<and> ctxErr ?pz = Some DeadlineExceeded
      \<and> \<not> stdErrIndicatesCorruption (capturedStderr ?pz)"
    by (simp add: newReader_def cap good)
  from C5_cause_amended [where rc = ?rc and px = ?px and er = "ExitError 2"] h1
  have a: "\<exists>x. fst (waitCmd ?px ?rc) = Some x \<and> Unwrap x = Some (ExitError 2)"
    by blast
  from C5_cause_amended [where er = "OSError ''no such file''" and chk = checkSpecArgSafety
      and sub = "''rev-parse''" and opts = ?opts and args = "[''rev-parse'', ''HEAD'']"
      and e = ?e and w = ?w] h3
  have b: "\<exists>x. fst (NewCommand checkSpecArgSafety ?e ''rev-parse'' ?opts ?w) = Inl x
      \<and> Unwrap x = Some (OSError ''no such file'')"
    by blast
  from C5_cause_amended [where er = "OSError ''too many open files''" and chk = checkSpecArgSafety
      and sub = "''rev-parse''" and opts = ?opts and args = "[''rev-parse'', ''HEAD'']"
      and e = ?f and w = ?w] h2
  have c: "\<exists>x. fst (NewCommand checkSpecArgSafety ?f ''rev-parse'' ?opts ?w) = Inl x
      \<and> Unwrap x = Some (OSError ''too many open files'')"
    by blast
  from C5_cause_amended [where rc = ?rc and px = ?py and er = "ExitError 128"] h4
  have "fst (waitCmd ?py ?rc) = Some (ErrRepoCorrupted (capturedStderr ?py))"
    by blast
  then have d: "fst (waitCmd ?py ?rc) = Some (ErrRepoCorrupted ''error: packfile p is bad'')"
    by (simp add: cap)
  from C5_cause_amended [where rc = ?rc and px = ?pz and er = "ExitError 2"
      and ce = DeadlineExceeded] h5
  have f: "fst (waitCmd ?pz ?rc) = Some DeadlineExceeded"
    by blast
  from a b c d f show ?thesis
    by blast
qed

lemma waitCmd_step:
  "\<not> waitOnce rc \<Longrightarrow>
     waitOnce (snd (waitCmd px rc)) \<and> waitCalls (snd (waitCmd px rc)) = waitCalls rc + 1
     \<and> fst (waitCmd px rc) = err (snd (waitCmd px rc))"
  by (simp add: waitCmd_first waitBody_waitCalls)

lemma perform_done: "waitOnce rc \<Longrightarrow> snd (perform c px rc) = rc"
  by (cases c) (simp_all add: Read_def Close_def waitCmd_done split: option.splits)

lemma perform_idle: "\<not> waits c \<Longrightarrow> snd (perform c px rc) = rc"
  by (cases c) (simp_all add: Read_def)

lemma perform_waits:
  assumes "\<not> waitOnce rc" and "waits c"
  shows "waitOnce (snd (perform c px rc)) \<and> waitCalls (snd (perform c px rc)) = waitCalls rc + 1"
proof (cases c)
  case (ReadCall n er)
  with assms(2) have eof: "er = Some EOF" by simp
  obtain r rc1 where w: "waitCmd px rc = (r, rc1)"
    by (cases "waitCmd px rc")
  with waitCmd_step [OF assms(1), of px]
  have "waitOnce rc1 \<and> waitCalls rc1 = waitCalls rc + 1" by simp
  with ReadCall eof w show ?thesis
    by (cases r) (simp_all add: Read_def)
next
  case CloseCall
  with waitCmd_step [OF assms(1), of px] show ?thesis
    by (simp add: Close_def)
qed

lemma run_done: "waitOnce rc \<Longrightarrow> run cs rc = rc"
  by (induction cs) (auto simp: perform_done)

lemma run_count:
  "\<not> waitOnce rc \<Longrightarrow>
     waitCalls (run cs rc) = waitCalls rc + (if list_ex (\<lambda>c. waits (fst c)) cs then 1 else 0)
     \<and> waitOnce (run cs rc) = list_ex (\<lambda>c. waits (fst c)) cs"
proof (induction cs arbitrary: rc)
  case Nil
  then show ?case by simp
next
  case (Cons a cs)
  obtain c px where a: "a = (c, px)" by (cases a)
  show ?case
  proof (cases "waits c")
    case True
    from perform_waits [OF Cons.prems True, of px]
    have "waitOnce (snd (perform c px rc))"
      and "waitCalls (snd (perform c px rc)) = waitCalls rc + 1"
      by simp_all
    with a True show ?thesis
      by (simp add: run_done)
  next
    case False
    with a Cons.IH [OF Cons.prems] show ?thesis
      by (simp add: perform_idle)
  qed
qed

text \<open>
  A \<open>Read\<close> after the wait step does not return the memoized outcome. \<open>Read\<close>
  reads the stream first and asks \<open>waitCmd\<close> only when the stream answers its end. A
  process exits with 1; the \<open>Read\<close> that meets the end of the stream waits and returns
  the \<open>CommandFailedError\<close>; the next \<open>Read\<close> gets the error of the closed pipe from
  the stream and returns that error.
\<close>

theorem C4_trailing_read_counterexample:
  "snd (fst (Read (3, Some EOF)
        \<lparr>waitErr = Some (ExitError 1), exitCode = 1, stderrWrites = [''fatal: x''],
          ctxErr = None, configSetErr = None, unixNow = 0\<rparr>
        (newReader \<lparr>hasDeadline = False, stdoutPipeErr = None, startErr = None\<rparr>
           ''log'' [''log''])))
     = Some (CommandFailedError ''fatal: x'' 1 (ExitError 1) [''git'', ''log''])
   \<and> err (snd (Read (3, Some EOF)
        \<lparr>waitErr = Some (ExitError 1), exitCode = 1, stderrWrites = [''fatal: x''],
          ctxErr = None, configSetErr = None, unixNow = 0\<rparr>
        (newReader \<lparr>hasDeadline = False, stdoutPipeErr = None, startErr = None\<rparr>
           ''log'' [''log''])))
     = Some (CommandFailedError ''fatal: x'' 1 (ExitError 1) [''git'', ''log''])
   \<and> snd (fst (Read (0, Some (OSError ''read |0: file already closed''))
        \<lparr>waitErr = None, exitCode = 1, stderrWrites = [''fatal: x''],
          ctxErr = None, configSetErr = None, unixNow = 0\<rparr>
        (snd (Read (3, Some EOF)
          \<lparr>waitErr = Some (ExitError 1), exitCode = 1, stderrWrites = [''fatal: x''],
            ctxErr = None, configSetErr = None, unixNow = 0\<rparr>
          (newReader \<lparr>hasDeadline = False, stdoutPipeErr = None, startErr = None\<rparr>
             ''log'' [''log''])))))
     = Some (OSError ''read |0: file already closed'')"
proof -
  let ?fail = "\<lparr>waitErr = Some (ExitError 1), exitCode = 1, stderrWrites = [''fatal: x''],
          ctxErr = None, configSetErr = None, unixNow = 0\<rparr>"
  let ?rc = "newReader \<lparr>hasDeadline = False, stdoutPipeErr = None, startErr = None\<rparr>
           ''log'' [''log'']"
  have cap: "capturedStderr ?fail = ''fatal: x''"
    by (simp add: capturedStderr_def stderrBuffer_def maxStderrCapture_def Write_def
        bufferWrite_def Let_def)
  have good: "\<not> stdErrIndicatesCorruption ''fatal: x''"
    by (simp add: stdErrIndicatesCorruption_def MatchString_def
        objectOrPackFileCorruptionRegex_def commitGraphCorruptionRegex_def)
  have fresh: "\<not> waitOnce ?rc"
    by (simp add: newReader_def)
  have w: "waitCmd ?fail ?rc
      = (Some (CommandFailedError ''fatal: x'' 1 (ExitError 1) [''git'', ''log'']),
         (waitBody ?fail ?rc)\<lparr>waitOnce := True\<rparr>)"
    using fresh
    by (simp add: waitCmd_first waitBody_err cap good commandFailedError_def newReader_def)
  have first: "Read (3, Some EOF) ?fail ?rc
      = ((3, Some (CommandFailedError ''fatal: x'' 1 (ExitError 1) [''git'', ''log''])),
         (waitBody ?fail ?rc)\<lparr>waitOnce := True\<rparr>)"
    by (simp add: Read_def w)
  have memo: "err ((waitBody ?fail ?rc)\<lparr>waitOnce := True\<rparr>)
      = Some (CommandFailedError ''fatal: x'' 1 (ExitError 1) [''git'', ''log''])"
    by (simp add: waitBody_err cap good commandFailedError_def newReader_def)
  show ?thesis
    unfolding first by (simp add: memo Read_def)
qed

text \<open>
  C4, amended. On a reader that \<open>NewCommand\<close> returned, whatever calls of \<open>Read\<close>
  and \<open>Close\<close> follow one another and whatever the environment answers, the wait of
  the operating system has run once if one of the calls was a \<open>Close\<close> or a \<open>Read\<close>
  that met the end of the stream, and not at all otherwise. Once it has run, every
  \<open>Close\<close> returns the memoized error, and neither a \<open>Close\<close> nor a \<open>Read\<close> changes
  the reader: the wait is not run again. So a second \<open>Close\<close>, or a \<open>Close\<close> after
  the \<open>Read\<close> that met the end of the stream, returns the memoized outcome. A
  \<open>Read\<close> to which the stream answers anything but its end, as the closed pipe does
  after the wait, returns that answer unchanged.
\<close>

theorem C4_wait_once_amended:
  "waitCalls (run cs (newReader e sub args)) = (if list_ex (\<lambda>c. waits (fst c)) cs then 1 else 0)
   \<and> waitOnce (run cs (newReader e sub args)) = list_ex (\<lambda>c. waits (fst c)) cs
   \<and> (waitOnce rc \<longrightarrow>
        Close px rc = (err rc, rc)
        \<and> snd (Read (n, er) px rc) = rc
        \<and> run cs rc = rc)
   \<and> (er \<noteq> Some EOF \<longrightarrow> Read (n, er) px rc = ((n, er), rc))
   \<and> (\<not> waitOnce rc \<and> Close px rc = (r, rc') \<longrightarrow>
        Close px' rc' = (r, rc') \<and> waitCalls rc' = waitCalls rc + 1)
   \<and> (\<not> waitOnce rc \<and> Read (n, Some EOF) px rc = ((n', r), rc') \<longrightarrow>
        Close px' rc' = (err rc', rc')
        \<and> r = Some (case err rc' of Some x \<Rightarrow> x | None \<Rightarrow> EOF)
        \<and> waitCalls rc' = waitCalls rc + 1)"
proof (intro conjI impI)
  have fresh: "\<not> waitOnce (newReader e sub args)" "waitCalls (newReader e sub args) = 0"
    by (simp_all add: newReader_def)
  from run_count [OF fresh(1), of cs] fresh(2)
  show "waitCalls (run cs (newReader e sub args))
      = (if list_ex (\<lambda>c. waits (fst c)) cs then 1 else 0)"
    and "waitOnce (run cs (newReader e sub args)) = list_ex (\<lambda>c. waits (fst c)) cs"
    by simp_all
next
  assume d: "waitOnce rc"
  then show "Close px rc = (err rc, rc)"
    by (simp add: Close_def waitCmd_done)
  from d show "snd (Read (n, er) px rc) = rc"
    by (simp add: Read_def waitCmd_done split: option.splits)
  from d show "run cs rc = rc"
    by (rule run_done)
next
  assume "er \<noteq> Some EOF"
  then show "Read (n, er) px rc = ((n, er), rc)"
    by (simp add: Read_def)
next
  assume h: "\<not> waitOnce rc \<and> Close px rc = (r, rc')"
  then have w: "waitCmd px rc = (r, rc')" by (simp add: Close_def)
  from h waitCmd_step [of rc px] w
  have s: "waitOnce rc'" "waitCalls rc' = waitCalls rc + 1" "r = err rc'"
    by simp_all
  from s(1,3) show "Close px' rc' = (r, rc')"
    by (simp add: Close_def waitCmd_done)
  from s(2) show "waitCalls rc' = waitCalls rc + 1" .
next
  assume h: "\<not> waitOnce rc \<and> Read (n, Some EOF) px rc = ((n', r), rc')"
  obtain r0 rc0 where w: "waitCmd px rc = (r0, rc0)"
    by (cases "waitCmd px rc")
  from h waitCmd_step [of rc px] w
  have s: "waitOnce rc0" "waitCalls rc0 = waitCalls rc + 1" "r0 = err rc0"
    by simp_all
  from h w have eq: "rc' = rc0" "r = Some (case r0 of Some x \<Rightarrow> x | None \<Rightarrow> EOF)"
    by (auto simp: Read_def split: option.splits)
  from s eq show "Close px' rc' = (err rc', rc')"
    by (simp add: Close_def waitCmd_done)
  from s eq show "r = Some (case err rc' of Some x \<Rightarrow> x | None \<Rightarrow> EOF)"
    by simp
  from s eq show "waitCalls rc' = waitCalls rc + 1"
    by simp
qed

theorem C4_wait_once_amended_witness:
  "waitCalls (run
      [(ReadCall 5 None, \<lparr>waitErr = None, exitCode = 0, stderrWrites = [], ctxErr = None,
          configSetErr = None, unixNow = 0\<rparr>),
       (ReadCall 0 (Some EOF), \<lparr>waitErr = Some (ExitError 1), exitCode = 1,
          stderrWrites = [''fatal: x''], ctxErr = None, configSetErr = None, unixNow = 0\<rparr>),
       (CloseCall, \<lparr>waitErr = None, exitCode = 0, stderrWrites = [], ctxErr = None,
          configSetErr = None, unixNow = 0\<rparr>),
       (ReadCall 0 (Some (OSError ''read |0: file already closed'')),
        \<lparr>waitErr = None, exitCode = 0, stderrWrites = [], ctxErr = None,
          configSetErr = None, unixNow = 0\<rparr>),
       (CloseCall, \<lparr>waitErr = None, exitCode = 0, stderrWrites = [], ctxErr = None,
          configSetErr = None, unixNow = 0\<rparr>)]
      (newReader \<lparr>hasDeadline = False, stdoutPipeErr = None, startErr = None\<rparr>
         ''log'' [''log''])) = 1
   \<and> fst (Close \<lparr>waitErr = None, exitCode = 0, stderrWrites = [], ctxErr = None,
          configSetErr = None, unixNow = 0\<rparr>
        (snd (Close \<lparr>waitErr = Some (ExitError 1), exitCode = 1,
          stderrWrites = [''fatal: x''], ctxErr = None, configSetErr = None, unixNow = 0\<rparr>
          (newReader \<lparr>hasDeadline = False, stdoutPipeErr = None, startErr = None\<rparr>
             ''log'' [''log'']))))
     = fst (Close \<lparr>waitErr = Some (ExitError 1), exitCode = 1,
          stderrWrites = [''fatal: x''], ctxErr = None, configSetErr = None, unixNow = 0\<rparr>
          (newReader \<lparr>hasDeadline = False, stdoutPipeErr = None, startErr = None\<rparr>
             ''log'' [''log'']))
   \<and> fst (Close \<lparr>waitErr = None, exitCode = 0, stderrWrites = [], ctxErr = None,
          configSetErr = None, unixNow = 0\<rparr>
        (snd (Read (3, Some EOF) \<lparr>waitErr = Some (ExitError 1), exitCode = 1,
          stderrWrites = [''fatal: x''], ctxErr = None, configSetErr = None, unixNow = 0\<rparr>
          (newReader \<lparr>hasDeadline = False, stdoutPipeErr = None, startErr = None\<rparr>
             ''log'' [''log'']))))
     = snd (fst (Read (3, Some EOF) \<lparr>waitErr = Some (ExitError 1), exitCode = 1,
          stderrWrites = [''fatal: x''], ctxErr = None, configSetErr = None, unixNow = 0\<rparr>
          (newReader \<lparr>hasDeadline = False, stdoutPipeErr = None, startErr = None\<rparr>
             ''log'' [''log''])))
   \<and> Read (0, Some (OSError ''read |0: file already closed''))
        \<lparr>waitErr = None, exitCode = 0, stderrWrites = [], ctxErr = None,
          configSetErr = None, unixNow = 0\<rparr>
        (snd (Close \<lparr>waitErr = Some (ExitError 1), exitCode = 1,
          stderrWrites = [''fatal: x''], ctxErr = None, configSetErr = None, unixNow = 0\<rparr>
          (newReader \<lparr>hasDeadline = False, stdoutPipeErr = None, startErr = None\<rparr>
             ''log'' [''log''])))
     = ((0, Some (OSError ''read |0: file already closed'')),
        snd (Close \<lparr>waitErr = Some (ExitError 1), exitCode = 1,
          stderrWrites = [''fatal: x''], ctxErr = None, configSetErr = None, unixNow = 0\<rparr>
          (newReader \<lparr>hasDeadline = False, stdoutPipeErr = None, startErr = None\<rparr>
             ''log'' [''log''])))
   \<and> run [(CloseCall, \<lparr>waitErr = None, exitCode = 0, stderrWrites = [], ctxErr = None,
          configSetErr = None, unixNow = 0\<rparr>)]
        (snd (Close \<lparr>waitErr = Some (ExitError 1), exitCode = 1,
          stderrWrites = [''fatal: x''], ctxErr = None, configSetErr = None, unixNow = 0\<rparr>
          (newReader \<lparr>hasDeadline = False, stdoutPipeErr = None, startErr = None\<rparr>
             ''log'' [''log''])))
     = snd (Close \<lparr>waitErr = Some (ExitError 1), exitCode = 1,
          stderrWrites = [''fatal: x''], ctxErr = None, configSetErr = None, unixNow = 0\<rparr>
          (newReader \<lparr>hasDeadline = False, stdoutPipeErr = None, startErr = None\<rparr>
             ''log'' [''log'']))"
proof -
  let ?ok = "\<lparr>waitErr = None, exitCode = 0, stderrWrites = [], ctxErr = None,
          configSetErr = None, unixNow = 0\<rparr>"
  let ?fail = "\<lparr>waitErr = Some (ExitError 1), exitCode = 1,
          stderrWrites = [''fatal: x''], ctxErr = None, configSetErr = None, unixNow = 0\<rparr>"
  let ?e = "\<lparr>hasDeadline = False, stdoutPipeErr = None, startErr = None\<rparr>"
  let ?gone = "OSError ''read |0: file already closed''"
  let ?rc = "newReader ?e ''log'' [''log'']"
  let ?cs = "[(ReadCall 5 None, ?ok), (ReadCall 0 (Some EOF), ?fail), (CloseCall, ?ok),
       (ReadCall 0 (Some ?gone), ?ok), (CloseCall, ?ok)]"
  let ?closed = "snd (Close ?fail ?rc)"
  let ?read = "Read (3, Some EOF) ?fail ?rc"
  note c4 = C4_wait_once_amended [where cs = ?cs and e = ?e and sub = "''log''"
      and args = "[''log'']" and rc = ?rc and px = ?fail and r = "fst (Close ?fail ?rc)"
      and rc' = ?closed and px' = ?ok]
  have h: "\<not> waitOnce ?rc \<and> Close ?fail ?rc = (fst (Close ?fail ?rc), ?closed)"
    by (simp add: newReader_def)
  from c4 have count: "waitCalls (run ?cs ?rc) = 1"
    by simp
  from c4 h have "Close ?ok ?closed = (fst (Close ?fail ?rc), ?closed)"
    by blast
  then have twice: "fst (Close ?ok ?closed) = fst (Close ?fail ?rc)"
    by simp
  have h5: "\<not> waitOnce ?rc
      \<and> Read (3, Some EOF) ?fail ?rc = ((fst (fst ?read), snd (fst ?read)), snd ?read)"
    by (simp add: newReader_def)
  from C4_wait_once_amended [where rc = ?rc and px = ?fail and n = 3 and n' = "fst (fst ?read)"
      and r = "snd (fst ?read)" and rc' = "snd ?read" and px' = ?ok] h5
  have after: "Close ?ok (snd ?read) = (err (snd ?read), snd ?read)"
    and shown: "snd (fst ?read) = Some (case err (snd ?read) of Some x \<Rightarrow> x | None \<Rightarrow> EOF)"
    by blast+
  have failed: "err (snd ?read) \<noteq> None"
  proof -
    have "err (waitBody ?fail ?rc) \<noteq> None"
      by (simp add: waitBody_err)
    then show ?thesis
      by (simp add: Read_def waitCmd_first newReader_def split: option.splits)
  qed
  with after shown have eofclose: "fst (Close ?ok (snd ?read)) = snd (fst ?read)"
    by auto
  have ne: "Some ?gone \<noteq> Some EOF"
    by simp
  from C4_wait_once_amended [where er = "Some ?gone" and n = 0 and px = ?ok and rc = ?closed] ne
  have trailing: "Read (0, Some ?gone) ?ok ?closed = ((0, Some ?gone), ?closed)"
    by blast
  have "waitOnce (run [(CloseCall, ?fail)] ?rc)"
    using C4_wait_once_amended [where cs = "[(CloseCall, ?fail)]" and e = ?e and sub = "''log''"
        and args = "[''log'']"]
    by simp
  then have h3: "waitOnce ?closed"
    by simp
  from C4_wait_once_amended [where rc = ?closed and cs = "[(CloseCall, ?ok)]"] h3
  have still: "run [(CloseCall, ?ok)] ?closed = ?closed"
    by blast
  from count twice eofclose trailing still show ?thesis
    by blast
qed

end
